theory Spec2Isabelle
  imports Complex_Main "HOL-Library.Multiset"
begin

section \<open>Marine sensor network simulator: the computational core of app.py\<close>

text \<open>
  The script reads five widget values, draws the node positions from numpy's global
  generator, optionally clusters the nodes, builds a nearest-neighbour route and runs the
  per-node communication model. The embedding follows the script top to bottom.

  Numbers: node coordinates are the integers numpy returns (\<open>int\<close>); every quantity the
  script computes with Python floats (distances, delays, energies) is a \<open>real\<close> here, so
  the theory describes the script up to the rounding error of binary floating point.
  The decimal rounding the script itself performs with \<open>round(x, n)\<close> is part of the
  model; where the exact value lies halfway between two decimals, the direction the
  double takes is a parameter.
\<close>

subsection \<open>Values, errors, configuration\<close>

type_synonym point = "int \<times> int"

datatype error = ValueError | KeyError

datatype network_type = RF_Telemetry | Cabled_Fiber | Acoustic

text \<open>
  The widget values. \<open>sofar_checkbox\<close> is the state of the SOFAR checkbox, which the
  script only shows (and reads) when the communication type is acoustic. The two sliders
  deliver \<open>num_nodes\<close> between 4 and 20 and \<open>area_size\<close> between 200 and 3000
  (\<open>widget_config\<close> below); the functions that follow are written for any integers, as
  the statements of the script are.
\<close>

record config =
  num_nodes :: int
  area_size :: int
  network_type :: network_type
  enable_cluster :: bool
  sofar_checkbox :: bool

definition enable_sofar :: "config \<Rightarrow> bool" where
  "enable_sofar cfg = (if network_type cfg = Acoustic then sofar_checkbox cfg else False)"


subsection \<open>Geometry\<close>

text \<open>\<open>math.dist\<close> on two points of the plane.\<close>

definition distance :: "point \<Rightarrow> point \<Rightarrow> real" where
  "distance a b = sqrt (real_of_int ((fst a - fst b)\<^sup>2 + (snd a - snd b)\<^sup>2))"

subsection \<open>Python and numpy primitives\<close>

text \<open>
  \<open>min(xs, key=f)\<close> keeps the first element whose key is smallest: the running best is
  replaced only by a strictly smaller key. It raises ValueError on an empty sequence.
\<close>

fun min_scan :: "('a \<Rightarrow> real) \<Rightarrow> 'a \<Rightarrow> 'a list \<Rightarrow> 'a" where
  "min_scan key best [] = best"
| "min_scan key best (x # xs) =
     (if key x < key best then min_scan key x xs else min_scan key best xs)"

definition py_min :: "'a list \<Rightarrow> ('a \<Rightarrow> real) \<Rightarrow> error + 'a" where
  "py_min xs key = (case xs of [] \<Rightarrow> Inl ValueError | x # rest \<Rightarrow> Inr (min_scan key x rest))"

text \<open>
  \<open>np.argmin\<close> returns the index of the first occurrence of the minimum and raises
  ValueError on an empty sequence.
\<close>

fun argmin_scan :: "real list \<Rightarrow> nat \<Rightarrow> nat \<Rightarrow> real \<Rightarrow> nat" where
  "argmin_scan [] i best_i best = best_i"
| "argmin_scan (x # xs) i best_i best =
     (if x < best then argmin_scan xs (Suc i) i x else argmin_scan xs (Suc i) best_i best)"

definition np_argmin :: "real list \<Rightarrow> error + nat" where
  "np_argmin ds = (case ds of [] \<Rightarrow> Inl ValueError | d # rest \<Rightarrow> Inr (argmin_scan rest 1 0 d))"

text \<open>
  \<open>round(x, n)\<close> on a float is the multiple of \<open>10 ^ - n\<close> nearest to the double. The double
  stands for the real number \<open>x\<close> of the model. Where \<open>x\<close> is not halfway between two
  multiples, that is the multiple nearest to \<open>x\<close>. Where \<open>x\<close> is exactly halfway (a cabled
  link of 900 m has the delay 0.0000045 s), the double lies on one side or the other, and
  the side is not a matter of the real number: \<open>up x n\<close> says whether the result is the
  upper neighbour.
\<close>

definition float_round :: "(real \<Rightarrow> nat \<Rightarrow> bool) \<Rightarrow> real \<Rightarrow> nat \<Rightarrow> real" where
  "float_round up x n =
     (let y = x * 10 ^ n; f = \<lfloor>y\<rfloor>; r = y - of_int f
      in of_int (if r < 1 / 2 then f else if 1 / 2 < r then f + 1
                 else if up x n then f + 1 else f) / 10 ^ n)"

subsection \<open>The store of mutable lists\<close>

text \<open>
  The node array and the Python lists of \<open>build_route\<close> are mutable objects. They live in
  a store: an address names an object, \<open>fresh\<close> is the next unused address, and creating
  an object (\<open>tolist\<close>, a list display, \<open>np.array\<close>) takes a fresh address.
\<close>

type_synonym addr = nat

record store =
  cell :: "addr \<Rightarrow> point list"
  fresh :: addr

definition empty_store :: store where
  "empty_store = \<lparr>cell = (\<lambda>a. []), fresh = 0\<rparr>"

definition alloc :: "store \<Rightarrow> point list \<Rightarrow> addr \<times> store" where
  "alloc h xs = (fresh h, \<lparr>cell = (cell h)(fresh h := xs), fresh = Suc (fresh h)\<rparr>)"

text \<open>\<open>xs.append(x)\<close> and \<open>xs.remove(x)\<close> update the object in place; \<open>remove\<close> deletes
  the first element equal to \<open>x\<close> and raises ValueError when there is none.\<close>

definition list_append :: "store \<Rightarrow> addr \<Rightarrow> point \<Rightarrow> store" where
  "list_append h a x = h\<lparr>cell := (cell h)(a := cell h a @ [x])\<rparr>"

definition list_remove :: "store \<Rightarrow> addr \<Rightarrow> point \<Rightarrow> error + store" where
  "list_remove h a x =
     (if x \<in> set (cell h a) then Inr (h\<lparr>cell := (cell h)(a := remove1 x (cell h a))\<rparr>)
      else Inl ValueError)"

subsection \<open>Node generation\<close>

text \<open>
  What the script takes from outside the repository enters as a parameter. numpy's
  generator: \<open>rng_seed\<close> is the state \<open>np.random.seed\<close> installs, \<open>rng_integer g low high\<close>
  is one bounded draw from state \<open>g\<close> together with the state after it. Floating point:
  \<open>round_up_at_tie\<close> is the direction of \<open>round\<close> at an exact decimal tie.
  \<open>randint(low, high, (rows, 2))\<close> fills the array row by row. It raises ValueError for a
  negative dimension, returns the empty array when a dimension is 0, and otherwise raises
  ValueError unless \<open>low < high\<close> and \<open>high - 1\<close> fits the 64-bit default integer type.
\<close>

record 'g runtime =
  rng_seed :: "int \<Rightarrow> 'g"
  rng_integer :: "'g \<Rightarrow> int \<Rightarrow> int \<Rightarrow> int \<times> 'g"
  round_up_at_tie :: "real \<Rightarrow> nat \<Rightarrow> bool"

definition int64_max :: int where
  "int64_max = 2 ^ 63 - 1"

fun draw_points :: "'g runtime \<Rightarrow> int \<Rightarrow> int \<Rightarrow> nat \<Rightarrow> 'g \<Rightarrow> point list \<times> 'g" where
  "draw_points np low high 0 g = ([], g)"
| "draw_points np low high (Suc n) g =
     (let (x, g1) = rng_integer np g low high;
          (y, g2) = rng_integer np g1 low high;
          (ps, g3) = draw_points np low high n g2
      in ((x, y) # ps, g3))"

definition randint :: "'g runtime \<Rightarrow> int \<Rightarrow> int \<Rightarrow> int \<Rightarrow> 'g \<Rightarrow> error + point list \<times> 'g" where
  "randint np low high rows g =
     (if rows < 0 then Inl ValueError
      else if rows = 0 then Inr ([], g)
      else if high \<le> low \<or> int64_max < high - 1 then Inl ValueError
      else Inr (draw_points np low high (nat rows) g))"

subsection \<open>Clustering\<close>

text \<open>
  \<open>clusters\<close> is a dict from cluster index to member list. One pass of the second loop
  of the clustering block: the node goes to the first nearest centre; indexing the dict
  with a missing key raises KeyError.
\<close>

definition assign_node ::
  "point list \<Rightarrow> (nat \<rightharpoonup> point list) \<Rightarrow> point \<Rightarrow> error + (nat \<rightharpoonup> point list)" where
  "assign_node centers cl node =
     (case np_argmin (map (\<lambda>c. distance node c) centers) of
        Inl e \<Rightarrow> Inl e
      | Inr cid \<Rightarrow>
          (case cl cid of
             None \<Rightarrow> Inl KeyError
           | Some members \<Rightarrow> Inr (cl(cid \<mapsto> members @ [node]))))"

fun assign_all ::
  "point list \<Rightarrow> (nat \<rightharpoonup> point list) \<Rightarrow> point list \<Rightarrow> error + (nat \<rightharpoonup> point list)" where
  "assign_all centers cl [] = Inr cl"
| "assign_all centers cl (node # rest) =
     (case assign_node centers cl node of
        Inl e \<Rightarrow> Inl e
      | Inr cl' \<Rightarrow> assign_all centers cl' rest)"

definition cluster_count :: "int \<Rightarrow> int" where
  "cluster_count n = max 2 (n div 4)"

definition clustering ::
  "int \<Rightarrow> point list \<Rightarrow> error + point list \<times> (nat \<rightharpoonup> point list)" where
  "clustering n ns =
     (let k = cluster_count n;
          cluster_centers = take (nat k) ns;
          cl = fold (\<lambda>i m. m(i \<mapsto> [])) [0..<nat k] Map.empty
      in case assign_all cluster_centers cl ns of
           Inl e \<Rightarrow> Inl e
         | Inr cl' \<Rightarrow> Inr (cluster_centers, cl'))"

subsection \<open>Routing\<close>

text \<open>
  The \<open>while remaining\<close> loop of \<open>build_route\<close>, on the store. Nothing in the loop itself
  keeps \<open>remaining\<close> and \<open>route\<close> apart; were they the same object the loop would never
  end, so the loop is a partial function and its termination is a theorem.
\<close>

partial_function (option) route_loop ::
  "store \<Rightarrow> addr \<Rightarrow> addr \<Rightarrow> point \<Rightarrow> (error + store) option" where
  "route_loop h remaining route current =
     (if cell h remaining = [] then Some (Inr h)
      else case py_min (cell h remaining) (\<lambda>p. distance current p) of
             Inl e \<Rightarrow> Some (Inl e)
           | Inr nearest \<Rightarrow>
               (let h1 = list_append h route nearest in
                case list_remove h1 remaining nearest of
                  Inl e \<Rightarrow> Some (Inl e)
                | Inr h2 \<Rightarrow> route_loop h2 remaining route nearest))"

text \<open>
  \<open>build_route(nodes, start)\<close>: \<open>nodes.tolist()\<close> and \<open>[start.tolist()]\<close> create two new
  lists, and \<open>np.array(route)\<close> a new array holding the final route.
\<close>

definition build_route :: "store \<Rightarrow> addr \<Rightarrow> point \<Rightarrow> (error + addr \<times> store) option" where
  "build_route h nodes start =
     (let (remaining, h1) = alloc h (cell h nodes);
          (route, h2) = alloc h1 [start]
      in case route_loop h2 remaining route start of
           None \<Rightarrow> None
         | Some (Inl e) \<Rightarrow> Some (Inl e)
         | Some (Inr h3) \<Rightarrow> Some (Inr (alloc h3 (cell h3 route))))"

subsection \<open>Communication model\<close>

text \<open>
  The body of the per-node loop up to \<open>delay = d / speed\<close>. The result is the value of
  the variables \<open>d\<close>, \<open>delay\<close>, \<open>energy\<close> and \<open>sync\<close> at that point; in the acoustic branch
  \<open>d\<close> is overwritten when the SOFAR effect is on, after \<open>energy\<close> has been computed.
\<close>

definition link_cost :: "network_type \<Rightarrow> bool \<Rightarrow> point \<Rightarrow> point \<Rightarrow> real \<times> real \<times> real \<times> real" where
  "link_cost nt sofar node bs =
     (let d = distance node bs;
          (speed, energy, sync, d) =
             (case nt of
                RF_Telemetry \<Rightarrow> (300000000, d * 0.06, 0.00002, d)
              | Cabled_Fiber \<Rightarrow> (200000000, d * 0.015, 0.00001, d)
              | Acoustic \<Rightarrow> (1500, d * 0.12, 0.002, if sofar then d * 0.8 else d));
          delay = d / speed
      in (d, delay, energy, sync))"

record metrics =
  results :: "(real \<times> real \<times> real) list"
  total_energy :: real
  total_delay :: real
  sync_overhead :: real

definition comm_init :: metrics where
  "comm_init = \<lparr>results = [], total_energy = 0, total_delay = 0, sync_overhead = 0\<rparr>"

definition comm_step ::
  "'g runtime \<Rightarrow> network_type \<Rightarrow> bool \<Rightarrow> point \<Rightarrow> metrics \<Rightarrow> point \<Rightarrow> metrics" where
  "comm_step np nt sofar bs acc node =
     (let (d, delay, energy, sync) = link_cost nt sofar node bs
      in \<lparr>results = results acc @
            [(float_round (round_up_at_tie np) d 2,
              float_round (round_up_at_tie np) delay 6,
              float_round (round_up_at_tie np) energy 3)],
          total_energy = total_energy acc + energy,
          total_delay = total_delay acc + delay,
          sync_overhead = sync_overhead acc + sync\<rparr>)"

definition comm_model ::
  "'g runtime \<Rightarrow> network_type \<Rightarrow> bool \<Rightarrow> point \<Rightarrow> point list \<Rightarrow> metrics" where
  "comm_model np nt sofar bs ns = foldl (comm_step np nt sofar bs) comm_init ns"

subsection \<open>The whole run\<close>

text \<open>
  The values of the script's variables when the computation is over. A run starts from
  whatever state \<open>g0\<close> the process-wide generator is in, reseeds it with 3, and returns
  the bundle with the generator state it leaves behind. The result is \<open>None\<close> if the run
  does not end and \<open>Some (Inl e)\<close> if it raises \<open>e\<close>.
\<close>

record result_bundle =
  nodes :: "point list"
  base_station :: point
  cluster_centers :: "point list"
  clusters :: "nat \<rightharpoonup> point list"
  route :: "point list"
  link_metrics :: metrics

definition simulate :: "'g runtime \<Rightarrow> config \<Rightarrow> 'g \<Rightarrow> (error + result_bundle \<times> 'g) option" where
  "simulate np cfg g0 =
     (let g1 = rng_seed np 3 in
      case randint np 50 (area_size cfg - 50) (num_nodes cfg) g1 of
        Inl e \<Rightarrow> Some (Inl e)
      | Inr (ns, g2) \<Rightarrow>
          (let (nodes_a, h1) = alloc empty_store ns;
               bs = (area_size cfg div 2, 20)
           in case (if enable_cluster cfg then clustering (num_nodes cfg) (cell h1 nodes_a)
                    else Inr ([], Map.empty)) of
                Inl e \<Rightarrow> Some (Inl e)
              | Inr (centers, cl) \<Rightarrow>
                  (case build_route h1 nodes_a bs of
                     None \<Rightarrow> None
                   | Some (Inl e) \<Rightarrow> Some (Inl e)
                   | Some (Inr (route_a, h2)) \<Rightarrow>
                       Some (Inr (\<lparr>nodes = cell h2 nodes_a,
                                   base_station = bs,
                                   cluster_centers = centers,
                                   clusters = cl,
                                   route = cell h2 route_a,
                                   link_metrics =
                                     comm_model np (network_type cfg) (enable_sofar cfg) bs
                                       (cell h2 nodes_a)\<rparr>, g2)))))"

section \<open>Vocabulary of the properties\<close>

text \<open>
  The node nearest to \<open>cur\<close> in the sequence \<open>rem\<close>, the first one in the order of the
  sequence where several are equally near.
\<close>

definition first_nearest :: "point \<Rightarrow> point list \<Rightarrow> point \<Rightarrow> bool" where
  "first_nearest cur rem p \<longleftrightarrow>
     (\<exists>j < length rem. rem ! j = p
        \<and> (\<forall>l < length rem. distance cur p \<le> distance cur (rem ! l))
        \<and> (\<forall>l < j. distance cur p < distance cur (rem ! l)))"

text \<open>
  A greedy nearest-neighbour tour: \<open>tour\<close> visits the nodes of \<open>rem\<close>, each step taking
  the first nearest of the nodes not yet visited and moving to it.
\<close>

fun greedy_from :: "point \<Rightarrow> point list \<Rightarrow> point list \<Rightarrow> bool" where
  "greedy_from cur rem [] = (rem = [])"
| "greedy_from cur rem (p # ps) = (first_nearest cur rem p \<and> greedy_from p (remove1 p rem) ps)"

text \<open>The index of the smallest entry of a list, the lowest such index on ties.\<close>

definition first_argmin :: "real list \<Rightarrow> nat \<Rightarrow> bool" where
  "first_argmin ds i \<longleftrightarrow>
     i < length ds \<and> (\<forall>j < length ds. ds ! i \<le> ds ! j) \<and> (\<forall>j < i. ds ! i < ds ! j)"

text \<open>The four variables of the loop body as functions of the node.\<close>

definition link_distance :: "network_type \<Rightarrow> bool \<Rightarrow> point \<Rightarrow> point \<Rightarrow> real" where
  "link_distance nt sofar node bs = fst (link_cost nt sofar node bs)"

definition link_delay :: "network_type \<Rightarrow> bool \<Rightarrow> point \<Rightarrow> point \<Rightarrow> real" where
  "link_delay nt sofar node bs = fst (snd (link_cost nt sofar node bs))"

definition link_energy :: "network_type \<Rightarrow> bool \<Rightarrow> point \<Rightarrow> point \<Rightarrow> real" where
  "link_energy nt sofar node bs = fst (snd (snd (link_cost nt sofar node bs)))"

definition link_sync :: "network_type \<Rightarrow> bool \<Rightarrow> point \<Rightarrow> point \<Rightarrow> real" where
  "link_sync nt sofar node bs = snd (snd (snd (link_cost nt sofar node bs)))"

text \<open>
  A valid configuration: at least one node, an area wide enough for the margin of 50 on
  both sides, and an upper bound that fits numpy's integer type.
\<close>

definition valid_config :: "config \<Rightarrow> bool" where
  "valid_config cfg \<longleftrightarrow>
     1 \<le> num_nodes cfg \<and> 100 < area_size cfg \<and> area_size cfg - 51 \<le> int64_max"

text \<open>What numpy documents of a bounded draw: the value lies in \<open>[low, high)\<close>.\<close>

definition rng_in_range :: "'g runtime \<Rightarrow> bool" where
  "rng_in_range np \<longleftrightarrow>
     (\<forall>g low high. low < high \<longrightarrow>
        low \<le> fst (rng_integer np g low high) \<and> fst (rng_integer np g low high) < high)"

text \<open>
  Rounding a real number to \<open>n\<close> decimals, an exact tie going to the even neighbour. It is
  what \<open>round\<close> stores of a value that is not at an exact tie (\<open>float_round_no_tie\<close> below),
  as the values of the acoustic model never are.
\<close>

definition round_half_even :: "real \<Rightarrow> int" where
  "round_half_even y =
     (let f = \<lfloor>y\<rfloor>; r = y - of_int f
      in if r < 1 / 2 then f else if 1 / 2 < r then f + 1 else if even f then f else f + 1)"

definition py_round :: "real \<Rightarrow> nat \<Rightarrow> real" where
  "py_round x n = of_int (round_half_even (x * 10 ^ n)) / 10 ^ n"

text \<open>Rounding a real toward zero.\<close>

definition round_toward_zero :: "real \<Rightarrow> int" where
  "round_toward_zero x = (if 0 \<le> x then \<lfloor>x\<rfloor> else \<lceil>x\<rceil>)"

text \<open>
  A small linear congruential generator in the place of numpy's, and ties that go up, to
  run the model on concrete configurations.
\<close>

definition example_random :: "nat runtime" where
  "example_random =
     \<lparr>rng_seed = (\<lambda>s. nat \<bar>s\<bar>),
      rng_integer = (\<lambda>g low high. (low + int g mod (high - low), (75 * g + 74) mod 65537)),
      round_up_at_tie = (\<lambda>x n. True)\<rparr>"

section \<open>Auxiliary lemmas\<close>

subsection \<open>Selection of the minimum\<close>

lemma min_scan_first:
  "\<exists>j < length (b # xs). (b # xs) ! j = min_scan key b xs
      \<and> (\<forall>l < length (b # xs). key (min_scan key b xs) \<le> key ((b # xs) ! l))
      \<and> (\<forall>l < j. key (min_scan key b xs) < key ((b # xs) ! l))"
proof (induction xs arbitrary: b)
  case Nil
  show ?case by simp
next
  case (Cons x xs)
  show ?case
  proof (cases "key x < key b")
    case True
    from Cons.IH[of x] obtain j where j: "j < length (x # xs)" "(x # xs) ! j = min_scan key x xs"
      "\<forall>l < length (x # xs). key (min_scan key x xs) \<le> key ((x # xs) ! l)"
      "\<forall>l < j. key (min_scan key x xs) < key ((x # xs) ! l)" by blast
    have le_x: "key (min_scan key x xs) \<le> key x" using j(3) by force
    let ?m = "min_scan key x xs"
    have "Suc j < length (b # x # xs)" using j(1) by simp
    moreover have "(b # x # xs) ! Suc j = min_scan key b (x # xs)" using True j(2) by simp
    moreover have "\<forall>l < length (b # x # xs). key ?m \<le> key ((b # x # xs) ! l)"
    proof (intro allI impI)
      fix l assume "l < length (b # x # xs)"
      then show "key ?m \<le> key ((b # x # xs) ! l)"
        using j(3) le_x True by (cases l) auto
    qed
    moreover have "\<forall>l < Suc j. key ?m < key ((b # x # xs) ! l)"
    proof (intro allI impI)
      fix l assume "l < Suc j"
      then show "key ?m < key ((b # x # xs) ! l)"
        using j(4) le_x True by (cases l) auto
    qed
    ultimately show ?thesis using True by (intro exI[of _ "Suc j"]) simp
  next
    case False
    from Cons.IH[of b] obtain j where j: "j < length (b # xs)" "(b # xs) ! j = min_scan key b xs"
      "\<forall>l < length (b # xs). key (min_scan key b xs) \<le> key ((b # xs) ! l)"
      "\<forall>l < j. key (min_scan key b xs) < key ((b # xs) ! l)" by blast
    let ?m = "min_scan key b xs"
    have le_b: "key ?m \<le> key b" using j(3) by force
    have all: "\<forall>l < length (b # x # xs). key ?m \<le> key ((b # x # xs) ! l)"
    proof (intro allI impI)
      fix l assume l: "l < length (b # x # xs)"
      show "key ?m \<le> key ((b # x # xs) ! l)"
      proof (cases l)
        case 0 then show ?thesis using le_b by simp
      next
        case (Suc l1)
        show ?thesis
        proof (cases l1)
          case 0 then show ?thesis using Suc le_b False by simp
        next
          case (Suc l2)
          then show ?thesis using \<open>l = Suc l1\<close> j(3)[rule_format, of "Suc l2"] l by simp
        qed
      qed
    qed
    show ?thesis
    proof (cases j)
      case 0
      then show ?thesis using all j(2) False by (intro exI[of _ 0]) simp
    next
      case (Suc j1)
      have "\<forall>l < Suc (Suc j1). key ?m < key ((b # x # xs) ! l)"
      proof (intro allI impI)
        fix l assume l: "l < Suc (Suc j1)"
        show "key ?m < key ((b # x # xs) ! l)"
        proof (cases l)
          case 0 then show ?thesis using j(4)[rule_format, of 0] Suc by simp
        next
          case (Suc l1)
          show ?thesis
          proof (cases l1)
            case 0
            have "key ?m < key b" using j(4)[rule_format, of 0] \<open>j = Suc j1\<close> by simp
            then show ?thesis using \<open>l = Suc l1\<close> 0 False by simp
          next
            case (Suc l2)
            then show ?thesis using \<open>l = Suc l1\<close> j(4)[rule_format, of "Suc l2"] l \<open>j = Suc j1\<close> by simp
          qed
        qed
      qed
      moreover have "(b # x # xs) ! Suc (Suc j1) = min_scan key b (x # xs)"
        using j(2) Suc False by simp
      moreover have "Suc (Suc j1) < length (b # x # xs)" using j(1) Suc by simp
      ultimately show ?thesis using all False by (intro exI[of _ "Suc (Suc j1)"]) simp
    qed
  qed
qed

lemma min_scan_in: "min_scan key b xs \<in> set (b # xs)"
  by (induction xs arbitrary: b) auto

lemma py_min_first_nearest:
  assumes "rem \<noteq> []"
  shows "\<exists>p. py_min rem (\<lambda>q. distance cur q) = Inr p \<and> first_nearest cur rem p \<and> p \<in> set rem"
proof -
  from assms obtain b xs where rem: "rem = b # xs" by (cases rem) auto
  have "py_min rem (\<lambda>q. distance cur q) = Inr (min_scan (\<lambda>q. distance cur q) b xs)"
    by (simp add: py_min_def rem)
  moreover have "first_nearest cur rem (min_scan (\<lambda>q. distance cur q) b xs)"
    unfolding first_nearest_def rem using min_scan_first[of b xs "\<lambda>q. distance cur q"] by blast
  moreover have "min_scan (\<lambda>q. distance cur q) b xs \<in> set rem"
    unfolding rem by (rule min_scan_in)
  ultimately show ?thesis by blast
qed

lemma first_nearest_unique:
  assumes "first_nearest cur rem p" "first_nearest cur rem q"
  shows "p = q"
proof -
  from assms(1) obtain j where j: "j < length rem" "rem ! j = p"
    "\<forall>l < length rem. distance cur p \<le> distance cur (rem ! l)"
    "\<forall>l < j. distance cur p < distance cur (rem ! l)"
    unfolding first_nearest_def by blast
  from assms(2) obtain k where k: "k < length rem" "rem ! k = q"
    "\<forall>l < length rem. distance cur q \<le> distance cur (rem ! l)"
    "\<forall>l < k. distance cur q < distance cur (rem ! l)"
    unfolding first_nearest_def by blast
  have "\<not> j < k"
  proof
    assume "j < k"
    then have "distance cur q < distance cur p" using k(4) j(2) by auto
    moreover have "distance cur p \<le> distance cur q" using j(3) k(1,2) by auto
    ultimately show False by simp
  qed
  moreover have "\<not> k < j"
  proof
    assume "k < j"
    then have "distance cur p < distance cur q" using j(4) k(2) by auto
    moreover have "distance cur q \<le> distance cur p" using k(3) j(1,2) by auto
    ultimately show False by simp
  qed
  ultimately have "j = k" by simp
  then show ?thesis using j(2) k(2) by simp
qed

lemma argmin_scan_spec:
  "(argmin_scan xs i bi bv = bi \<and> (\<forall>x \<in> set xs. bv \<le> x))
   \<or> (\<exists>j < length xs. argmin_scan xs i bi bv = i + j \<and> xs ! j < bv
         \<and> (\<forall>l < length xs. xs ! j \<le> xs ! l) \<and> (\<forall>l < j. xs ! j < xs ! l))"
proof (induction xs arbitrary: i bi bv)
  case Nil
  show ?case by simp
next
  case (Cons x xs)
  show ?case
  proof (cases "x < bv")
    case True
    from Cons.IH[of "Suc i" i x] show ?thesis
    proof
      assume a: "argmin_scan xs (Suc i) i x = i \<and> (\<forall>y \<in> set xs. x \<le> y)"
      have "\<forall>l < length (x # xs). (x # xs) ! 0 \<le> (x # xs) ! l"
      proof (intro allI impI)
        fix l assume "l < length (x # xs)"
        then show "(x # xs) ! 0 \<le> (x # xs) ! l" using a by (cases l) auto
      qed
      then show ?thesis using True a by (intro disjI2 exI[of _ 0]) simp
    next
      assume "\<exists>j < length xs. argmin_scan xs (Suc i) i x = Suc i + j \<and> xs ! j < x
         \<and> (\<forall>l < length xs. xs ! j \<le> xs ! l) \<and> (\<forall>l < j. xs ! j < xs ! l)"
      then obtain j where j: "j < length xs" "argmin_scan xs (Suc i) i x = Suc i + j" "xs ! j < x"
        "\<forall>l < length xs. xs ! j \<le> xs ! l" "\<forall>l < j. xs ! j < xs ! l" by blast
      have "\<forall>l < length (x # xs). (x # xs) ! Suc j \<le> (x # xs) ! l"
      proof (intro allI impI)
        fix l assume "l < length (x # xs)"
        then show "(x # xs) ! Suc j \<le> (x # xs) ! l" using j(3,4) by (cases l) auto
      qed
      moreover have "\<forall>l < Suc j. (x # xs) ! Suc j < (x # xs) ! l"
      proof (intro allI impI)
        fix l assume "l < Suc j"
        then show "(x # xs) ! Suc j < (x # xs) ! l" using j(3,5) by (cases l) auto
      qed
      ultimately show ?thesis using True j(1,2,3) by (intro disjI2 exI[of _ "Suc j"]) simp
    qed
  next
    case False
    from Cons.IH[of "Suc i" bi bv] show ?thesis
    proof
      assume "argmin_scan xs (Suc i) bi bv = bi \<and> (\<forall>y \<in> set xs. bv \<le> y)"
      then show ?thesis using False by (intro disjI1) simp
    next
      assume "\<exists>j < length xs. argmin_scan xs (Suc i) bi bv = Suc i + j \<and> xs ! j < bv
         \<and> (\<forall>l < length xs. xs ! j \<le> xs ! l) \<and> (\<forall>l < j. xs ! j < xs ! l)"
      then obtain j where j: "j < length xs" "argmin_scan xs (Suc i) bi bv = Suc i + j" "xs ! j < bv"
        "\<forall>l < length xs. xs ! j \<le> xs ! l" "\<forall>l < j. xs ! j < xs ! l" by blast
      have "\<forall>l < length (x # xs). (x # xs) ! Suc j \<le> (x # xs) ! l"
      proof (intro allI impI)
        fix l assume "l < length (x # xs)"
        then show "(x # xs) ! Suc j \<le> (x # xs) ! l" using j(3,4) False by (cases l) auto
      qed
      moreover have "\<forall>l < Suc j. (x # xs) ! Suc j < (x # xs) ! l"
      proof (intro allI impI)
        fix l assume "l < Suc j"
        then show "(x # xs) ! Suc j < (x # xs) ! l" using j(3,5) False by (cases l) auto
      qed
      ultimately show ?thesis using False j(1,2,3) by (intro disjI2 exI[of _ "Suc j"]) simp
    qed
  qed
qed

lemma np_argmin_first:
  assumes "ds \<noteq> []"
  shows "\<exists>i. np_argmin ds = Inr i \<and> first_argmin ds i"
proof -
  from assms obtain d rest where ds: "ds = d # rest" by (cases ds) auto
  have eq: "np_argmin ds = Inr (argmin_scan rest 1 0 d)" by (simp add: np_argmin_def ds)
  from argmin_scan_spec[of rest 1 0 d] have "first_argmin ds (argmin_scan rest 1 0 d)"
  proof
    assume a: "argmin_scan rest 1 0 d = 0 \<and> (\<forall>x \<in> set rest. d \<le> x)"
    have "\<forall>j < length (d # rest). (d # rest) ! 0 \<le> (d # rest) ! j"
    proof (intro allI impI)
      fix j assume "j < length (d # rest)"
      then show "(d # rest) ! 0 \<le> (d # rest) ! j" using a by (cases j) auto
    qed
    then show ?thesis using a by (simp add: first_argmin_def ds)
  next
    assume "\<exists>j < length rest. argmin_scan rest 1 0 d = 1 + j \<and> rest ! j < d
         \<and> (\<forall>l < length rest. rest ! j \<le> rest ! l) \<and> (\<forall>l < j. rest ! j < rest ! l)"
    then obtain j where j: "j < length rest" "argmin_scan rest 1 0 d = 1 + j" "rest ! j < d"
      "\<forall>l < length rest. rest ! j \<le> rest ! l" "\<forall>l < j. rest ! j < rest ! l" by blast
    have "\<forall>l < length (d # rest). (d # rest) ! Suc j \<le> (d # rest) ! l"
    proof (intro allI impI)
      fix l assume "l < length (d # rest)"
      then show "(d # rest) ! Suc j \<le> (d # rest) ! l" using j(3,4) by (cases l) auto
    qed
    moreover have "\<forall>l < Suc j. (d # rest) ! Suc j < (d # rest) ! l"
    proof (intro allI impI)
      fix l assume "l < Suc j"
      then show "(d # rest) ! Suc j < (d # rest) ! l" using j(3,5) by (cases l) auto
    qed
    ultimately show ?thesis using j(1,2) by (simp add: first_argmin_def ds)
  qed
  with eq show ?thesis by simp
qed

lemma first_argmin_unique: "first_argmin ds i \<Longrightarrow> first_argmin ds j \<Longrightarrow> i = j"
  unfolding first_argmin_def by (metis linorder_neqE_nat not_less)

lemma np_argmin_iff:
  assumes "ds \<noteq> []"
  shows "np_argmin ds = Inr i \<longleftrightarrow> first_argmin ds i"
  using np_argmin_first[OF assms] first_argmin_unique by auto

subsection \<open>The route loop\<close>

lemma route_loop_greedy:
  assumes "rem_a \<noteq> route_a"
  shows "\<exists>tour. route_loop h rem_a route_a current =
            Some (Inr (h\<lparr>cell := (cell h)(route_a := cell h route_a @ tour, rem_a := [])\<rparr>))
          \<and> greedy_from current (cell h rem_a) tour"
proof (induction "length (cell h rem_a)" arbitrary: h current rule: less_induct)
  case less
  show ?case
  proof (cases "cell h rem_a = []")
    case True
    have "h\<lparr>cell := (cell h)(route_a := cell h route_a @ [], rem_a := [])\<rparr> = h"
      using True by (simp add: fun_upd_idem_iff[THEN iffD2])
    then have "route_loop h rem_a route_a current =
        Some (Inr (h\<lparr>cell := (cell h)(route_a := cell h route_a @ [], rem_a := [])\<rparr>))"
      using True by (subst route_loop.simps) simp
    then show ?thesis using True by (intro exI[of _ "[]"]) simp
  next
    case False
    from py_min_first_nearest[OF False, of current] obtain p where
      p: "py_min (cell h rem_a) (\<lambda>q. distance current q) = Inr p"
         "first_nearest current (cell h rem_a) p" "p \<in> set (cell h rem_a)" by blast
    define h1 where "h1 = list_append h route_a p"
    define h2 where "h2 = h1\<lparr>cell := (cell h1)(rem_a := remove1 p (cell h1 rem_a))\<rparr>"
    have c1: "cell h1 rem_a = cell h rem_a"
      using assms by (simp add: h1_def list_append_def)
    have rm: "list_remove h1 rem_a p = Inr h2"
      using p(3) c1 by (simp add: list_remove_def h2_def)
    have c2: "cell h2 rem_a = remove1 p (cell h rem_a)"
      by (simp add: h2_def c1)
    have c2r: "cell h2 route_a = cell h route_a @ [p]"
      using assms by (simp add: h2_def h1_def list_append_def)
    have "length (cell h2 rem_a) < length (cell h rem_a)"
      using p(3) length_pos_if_in_set[OF p(3)] by (simp add: c2 length_remove1)
    from less[OF this, of p] obtain tour where
      t: "route_loop h2 rem_a route_a p =
            Some (Inr (h2\<lparr>cell := (cell h2)(route_a := cell h2 route_a @ tour, rem_a := [])\<rparr>))"
         "greedy_from p (cell h2 rem_a) tour" by blast
    have step: "route_loop h rem_a route_a current = route_loop h2 rem_a route_a p"
      using False p(1) rm by (subst route_loop.simps) (simp add: h1_def)
    have eq: "h2\<lparr>cell := (cell h2)(route_a := cell h2 route_a @ tour, rem_a := [])\<rparr>
            = h\<lparr>cell := (cell h)(route_a := cell h route_a @ (p # tour), rem_a := [])\<rparr>"
      using assms by (simp add: h2_def h1_def list_append_def fun_eq_iff)
    have "greedy_from current (cell h rem_a) (p # tour)"
      using p(2) t(2) by (simp add: c2)
    then show ?thesis using step t(1) eq by (intro exI[of _ "p # tour"]) simp
  qed
qed

lemma build_route_greedy:
  "\<exists>tour. build_route h nodes_a start =
      Some (Inr (fresh h + 2,
        \<lparr>cell = (cell h)(fresh h := [], fresh h + 1 := start # tour, fresh h + 2 := start # tour),
         fresh = fresh h + 3\<rparr>))
    \<and> greedy_from start (cell h nodes_a) tour"
proof -
  define h1 where "h1 = \<lparr>cell = (cell h)(fresh h := cell h nodes_a), fresh = Suc (fresh h)\<rparr>"
  define h2 where "h2 = \<lparr>cell = (cell h1)(Suc (fresh h) := [start]), fresh = Suc (Suc (fresh h))\<rparr>"
  have ne: "fresh h \<noteq> Suc (fresh h)" by simp
  from route_loop_greedy[OF ne, of h2 start] obtain tour where
    t: "route_loop h2 (fresh h) (Suc (fresh h)) start =
          Some (Inr (h2\<lparr>cell := (cell h2)(Suc (fresh h) := cell h2 (Suc (fresh h)) @ tour, fresh h := [])\<rparr>))"
       "greedy_from start (cell h2 (fresh h)) tour" by blast
  have g: "greedy_from start (cell h nodes_a) tour"
    using t(2) by (simp add: h2_def h1_def)
  have "build_route h nodes_a start =
      Some (Inr (fresh h + 2,
        \<lparr>cell = (cell h)(fresh h := [], fresh h + 1 := start # tour, fresh h + 2 := start # tour),
         fresh = fresh h + 3\<rparr>))"
    unfolding build_route_def alloc_def Let_def
    using t(1) by (simp add: h1_def h2_def fun_eq_iff)
  with g show ?thesis by blast
qed

lemma greedy_from_mset: "greedy_from cur rem tour \<Longrightarrow> mset tour = mset rem"
proof (induction tour arbitrary: cur rem)
  case Nil
  then show ?case by simp
next
  case (Cons p ps)
  then have fn: "first_nearest cur rem p" and g: "greedy_from p (remove1 p rem) ps" by simp_all
  from fn have "p \<in> set rem" unfolding first_nearest_def by auto
  moreover from Cons.IH[OF g] have "mset ps = mset (remove1 p rem)" .
  ultimately show ?case by simp
qed

lemma greedy_from_unique:
  "greedy_from cur rem t1 \<Longrightarrow> greedy_from cur rem t2 \<Longrightarrow> t1 = t2"
proof (induction t1 arbitrary: cur rem t2)
  case Nil
  then show ?case by (cases t2) (auto simp: first_nearest_def)
next
  case (Cons p ps)
  show ?case
  proof (cases t2)
    case Nil
    with Cons.prems show ?thesis by (auto simp: first_nearest_def)
  next
    case (Cons q qs)
    with Cons.prems have "p = q" by (auto intro: first_nearest_unique)
    moreover have "ps = qs" using Cons.IH[of p "remove1 p rem" qs] Cons.prems Cons \<open>p = q\<close> by simp
    ultimately show ?thesis using Cons by simp
  qed
qed

subsection \<open>Clustering\<close>

lemma fold_init_clusters:
  "fold (\<lambda>i m. m(i \<mapsto> [])) [0..<k] Map.empty = (\<lambda>i. if i < k then Some [] else None)"
  by (induction k) (auto simp: fun_eq_iff)

lemma assign_all_ok:
  assumes "centers \<noteq> []" "\<forall>i < length centers. cl i \<noteq> None"
  shows "assign_all centers cl ns =
     Inr (\<lambda>i. case cl i of None \<Rightarrow> None
              | Some ms \<Rightarrow> Some (ms @ filter (\<lambda>node. np_argmin (map (\<lambda>c. distance node c) centers) = Inr i) ns))"
  using assms(2)
proof (induction ns arbitrary: cl)
  case Nil
  show ?case by (auto simp: fun_eq_iff split: option.splits)
next
  case (Cons node rest)
  have ne: "map (\<lambda>c. distance node c) centers \<noteq> []" using assms(1) by simp
  from np_argmin_first[OF ne] obtain cid where
    cid: "np_argmin (map (\<lambda>c. distance node c) centers) = Inr cid"
         "first_argmin (map (\<lambda>c. distance node c) centers) cid" by blast
  have lt: "cid < length centers" using cid(2) by (simp add: first_argmin_def)
  with Cons.prems obtain ms where ms: "cl cid = Some ms" by auto
  let ?cl' = "cl(cid \<mapsto> ms @ [node])"
  have step: "assign_node centers cl node = Inr ?cl'"
    by (simp add: assign_node_def cid(1) ms)
  have dom': "\<forall>i < length centers. ?cl' i \<noteq> None" using Cons.prems by simp
  show ?case
    unfolding assign_all.simps step sum.case Cons.IH[OF dom']
    using cid(1) ms by (auto simp: fun_eq_iff split: option.splits)
qed

lemma clustering_ok:
  "clustering n ns =
     Inr (take (nat (cluster_count n)) ns,
          \<lambda>i. if i < nat (cluster_count n)
               then Some (filter (\<lambda>node. np_argmin
                            (map (\<lambda>c. distance node c) (take (nat (cluster_count n)) ns)) = Inr i) ns)
               else None)"
proof (cases ns)
  case Nil
  then show ?thesis
    by (auto simp: clustering_def fold_init_clusters fun_eq_iff)
next
  case (Cons p ps)
  let ?k = "nat (cluster_count n)"
  have k: "0 < ?k" by (simp add: cluster_count_def)
  then have ne: "take ?k ns \<noteq> []" using Cons by simp
  have dom: "\<forall>i < length (take ?k ns). (\<lambda>i. if i < ?k then Some [] else None) i \<noteq> (None :: point list option)"
    by simp
  show ?thesis
    unfolding clustering_def Let_def fold_init_clusters assign_all_ok[OF ne dom]
    by (auto simp: fun_eq_iff)
qed

subsection \<open>Communication model\<close>

lemma link_cost_acoustic:
  "link_cost Acoustic sofar node bs =
     ((if sofar then distance node bs * 0.8 else distance node bs),
      (if sofar then distance node bs * 0.8 else distance node bs) / 1500,
      distance node bs * 0.12, 0.002)"
  by (simp add: link_cost_def Let_def)

lemma comm_foldl:
  "foldl (comm_step np nt sofar bs) acc ns =
     \<lparr>results = results acc @
        map (\<lambda>node. (float_round (round_up_at_tie np) (link_distance nt sofar node bs) 2,
                      float_round (round_up_at_tie np) (link_delay nt sofar node bs) 6,
                      float_round (round_up_at_tie np) (link_energy nt sofar node bs) 3)) ns,
      total_energy = total_energy acc + (\<Sum>node\<leftarrow>ns. link_energy nt sofar node bs),
      total_delay = total_delay acc + (\<Sum>node\<leftarrow>ns. link_delay nt sofar node bs),
      sync_overhead = sync_overhead acc + (\<Sum>node\<leftarrow>ns. link_sync nt sofar node bs)\<rparr>"
proof (induction ns arbitrary: acc)
  case Nil
  show ?case by simp
next
  case (Cons node rest)
  show ?case
    unfolding foldl_Cons Cons.IH
    by (simp add: comm_step_def link_distance_def link_delay_def link_energy_def link_sync_def
        split: prod.splits)
qed

lemma comm_model_eq:
  "comm_model np nt sofar bs ns =
     \<lparr>results =
        map (\<lambda>node. (float_round (round_up_at_tie np) (link_distance nt sofar node bs) 2,
                      float_round (round_up_at_tie np) (link_delay nt sofar node bs) 6,
                      float_round (round_up_at_tie np) (link_energy nt sofar node bs) 3)) ns,
      total_energy = (\<Sum>node\<leftarrow>ns. link_energy nt sofar node bs),
      total_delay = (\<Sum>node\<leftarrow>ns. link_delay nt sofar node bs),
      sync_overhead = (\<Sum>node\<leftarrow>ns. link_sync nt sofar node bs)\<rparr>"
  unfolding comm_model_def comm_foldl by (simp add: comm_init_def)

text \<open>
  A multiple of the square root of an integer by a fraction with an odd denominator is
  never halfway between two integers: twice the multiple would be an odd integer, and its
  square both even and odd.
\<close>

lemma sqrt_multiple_no_tie:
  assumes "0 \<le> m" "odd b"
  shows "sqrt (real_of_int m) * (real_of_int a / real_of_int b)
           - real_of_int \<lfloor>sqrt (real_of_int m) * (real_of_int a / real_of_int b)\<rfloor> \<noteq> 1 / 2"
proof
  let ?y = "sqrt (real_of_int m) * (real_of_int a / real_of_int b)"
  let ?k = "\<lfloor>?y\<rfloor>"
  assume tie: "?y - real_of_int ?k = 1 / 2"
  have b0: "real_of_int b \<noteq> 0" using assms(2) by auto
  have "?y = real_of_int ?k + 1 / 2" using tie by linarith
  then have "?y * (2 * real_of_int b) = (real_of_int ?k + 1 / 2) * (2 * real_of_int b)" by simp
  then have "2 * real_of_int a * sqrt (real_of_int m) = real_of_int (b * (2 * ?k + 1))"
    using b0 by (simp add: field_simps)
  then have "(2 * real_of_int a * sqrt (real_of_int m))\<^sup>2 = (real_of_int (b * (2 * ?k + 1)))\<^sup>2"
    by simp
  moreover have "(2 * real_of_int a * sqrt (real_of_int m))\<^sup>2 = real_of_int (4 * a\<^sup>2 * m)"
    using assms(1) by (simp add: power_mult_distrib)
  ultimately have "real_of_int (4 * a\<^sup>2 * m) = real_of_int ((b * (2 * ?k + 1))\<^sup>2)" by simp
  then have eq: "4 * a\<^sup>2 * m = (b * (2 * ?k + 1))\<^sup>2" by (simp only: of_int_eq_iff)
  have "even (4 * a\<^sup>2 * m)" by simp
  moreover have "odd ((b * (2 * ?k + 1))\<^sup>2)" using assms(2) by simp
  ultimately show False using eq by simp
qed

lemma float_round_no_tie:
  assumes "x * 10 ^ n - real_of_int \<lfloor>x * 10 ^ n\<rfloor> \<noteq> 1 / 2"
  shows "float_round up x n = py_round x n"
  using assms by (simp add: float_round_def py_round_def round_half_even_def Let_def)

lemma float_round_sqrt:
  assumes "x * 10 ^ n = sqrt (real_of_int m) * (real_of_int a / real_of_int b)" "0 \<le> m" "odd b"
  shows "float_round up x n = py_round x n"
  using sqrt_multiple_no_tie[OF assms(2,3), of a] assms(1) by (intro float_round_no_tie) simp

lemma distance_sqrt:
  "distance p q = sqrt (real_of_int ((fst p - fst q)\<^sup>2 + (snd p - snd q)\<^sup>2))"
  "0 \<le> (fst p - fst q)\<^sup>2 + (snd p - snd q)\<^sup>2"
  by (simp_all add: distance_def)

text \<open>No quantity of the acoustic model is ever at a decimal tie.\<close>

lemma acoustic_round_distance:
  "float_round up (distance p q * 0.8) 2 = py_round (distance p q * 0.8) 2"
  by (rule float_round_sqrt[where a = 80 and b = 1, OF _ distance_sqrt(2)])
     (simp_all add: distance_sqrt(1))

lemma acoustic_round_energy:
  "float_round up (distance p q * 0.12) 3 = py_round (distance p q * 0.12) 3"
  by (rule float_round_sqrt[where a = 120 and b = 1, OF _ distance_sqrt(2)])
     (simp_all add: distance_sqrt(1))

lemma acoustic_round_delay_sofar:
  "float_round up (distance p q * 0.8 / 1500) 6 = py_round (distance p q * 0.8 / 1500) 6"
  by (rule float_round_sqrt[where a = 1600 and b = 3, OF _ distance_sqrt(2)])
     (simp_all add: distance_sqrt(1))

lemma acoustic_round_delay:
  "float_round up (distance p q / 1500) 6 = py_round (distance p q / 1500) 6"
  by (rule float_round_sqrt[where a = 2000 and b = 3, OF _ distance_sqrt(2)])
     (simp_all add: distance_sqrt(1))

lemma acoustic_stored_distance:
  "float_round up (link_distance Acoustic True node bs) 2 = py_round (distance node bs * 0.8) 2"
proof -
  have "link_distance Acoustic True node bs = distance node bs * 0.8"
    by (simp add: link_distance_def link_cost_acoustic)
  then show ?thesis by (simp only: acoustic_round_distance)
qed

lemma acoustic_stored_energy:
  "float_round up (link_energy Acoustic sofar node bs) 3 = py_round (distance node bs * 0.12) 3"
proof -
  have "link_energy Acoustic sofar node bs = distance node bs * 0.12"
    by (simp add: link_energy_def link_cost_acoustic)
  then show ?thesis by (simp only: acoustic_round_energy)
qed

lemma acoustic_stored_delay:
  "float_round up (link_delay Acoustic True node bs) 6 = py_round (distance node bs * 0.8 / 1500) 6"
  "float_round up (link_delay Acoustic False node bs) 6 = py_round (distance node bs / 1500) 6"
proof -
  have "link_delay Acoustic True node bs = distance node bs * 0.8 / 1500"
    by (simp add: link_delay_def link_cost_acoustic)
  then show "float_round up (link_delay Acoustic True node bs) 6
               = py_round (distance node bs * 0.8 / 1500) 6"
    by (simp only: acoustic_round_delay_sofar)
  have "link_delay Acoustic False node bs = distance node bs / 1500"
    by (simp add: link_delay_def link_cost_acoustic)
  then show "float_round up (link_delay Acoustic False node bs) 6
               = py_round (distance node bs / 1500) 6"
    by (simp only: acoustic_round_delay)
qed

text \<open>
  A tie that occurs: with \<open>area_size = 2592\<close> the base station is \<open>(1296, 20)\<close>, the node
  \<open>(1548, 884)\<close> is 900 m away, and its delay on a cabled link is 0.0000045 s. The stored
  delay is 0.000005 when the double lies above the tie and 0.000004 when it lies below.
\<close>

lemma cabled_tie_example:
  "distance (1548, 884) (1296, 20) = 900"
  "link_delay Cabled_Fiber False (1548, 884) (1296, 20) = 45 / 10000000"
  "float_round up (45 / 10000000) 6 = (if up (45 / 10000000) 6 then 5 / 1000000 else 4 / 1000000)"
proof -
  show d: "distance (1548, 884) (1296, 20) = 900"
    by (simp add: distance_def real_sqrt_unique)
  show "link_delay Cabled_Fiber False (1548, 884) (1296, 20) = 45 / 10000000"
    by (simp add: link_delay_def link_cost_def Let_def d)
  show "float_round up (45 / 10000000) 6 = (if up (45 / 10000000) 6 then 5 / 1000000 else 4 / 1000000)"
    by (simp add: float_round_def Let_def)
qed

subsection \<open>Node generation and the whole run\<close>

lemma length_draw_points: "length (fst (draw_points np low high n g)) = n"
proof (induction n arbitrary: g)
  case 0
  show ?case by simp
next
  case (Suc n)
  obtain x g1 where a: "rng_integer np g low high = (x, g1)" by (cases "rng_integer np g low high")
  obtain y g2 where b: "rng_integer np g1 low high = (y, g2)" by (cases "rng_integer np g1 low high")
  obtain ps g3 where c: "draw_points np low high n g2 = (ps, g3)"
    by (cases "draw_points np low high n g2")
  from Suc[of g2] c have "length ps = n" by simp
  then show ?case by (simp add: a b c)
qed

lemma draw_points_in_range:
  assumes "rng_in_range np" "low < high"
  shows "\<forall>p \<in> set (fst (draw_points np low high n g)).
           low \<le> fst p \<and> fst p < high \<and> low \<le> snd p \<and> snd p < high"
proof (induction n arbitrary: g)
  case 0
  show ?case by simp
next
  case (Suc n)
  have r: "low \<le> fst (rng_integer np s low high) \<and> fst (rng_integer np s low high) < high" for s
    using assms unfolding rng_in_range_def by blast
  obtain x g1 where a: "rng_integer np g low high = (x, g1)" by (cases "rng_integer np g low high")
  obtain y g2 where b: "rng_integer np g1 low high = (y, g2)" by (cases "rng_integer np g1 low high")
  obtain ps g3 where c: "draw_points np low high n g2 = (ps, g3)"
    by (cases "draw_points np low high n g2")
  have "low \<le> x \<and> x < high" using r[of g] a by simp
  moreover have "low \<le> y \<and> y < high" using r[of g1] b by simp
  moreover have "\<forall>p\<in>set ps. low \<le> fst p \<and> fst p < high \<and> low \<le> snd p \<and> snd p < high"
    using Suc[of g2] c by simp
  ultimately show ?case by (simp add: a b c)
qed

lemma randint_valid:
  assumes "valid_config cfg"
  shows "randint np 50 (area_size cfg - 50) (num_nodes cfg) g =
           Inr (draw_points np 50 (area_size cfg - 50) (nat (num_nodes cfg)) g)"
  using assms by (simp add: randint_def valid_config_def)


lemma simulate_run:
  assumes "randint np 50 (area_size cfg - 50) (num_nodes cfg) (rng_seed np 3) = Inr (ns, g)"
  shows "\<exists>tour cs cl.
     simulate np cfg g0 =
       Some (Inr (\<lparr>nodes = ns,
                   base_station = (area_size cfg div 2, 20),
                   cluster_centers = cs,
                   clusters = cl,
                   route = (area_size cfg div 2, 20) # tour,
                   link_metrics = comm_model np (network_type cfg) (enable_sofar cfg)
                                    (area_size cfg div 2, 20) ns\<rparr>, g))
     \<and> greedy_from (area_size cfg div 2, 20) ns tour
     \<and> (if enable_cluster cfg then clustering (num_nodes cfg) ns = Inr (cs, cl)
        else cs = [] \<and> cl = Map.empty)"
proof -
  let ?bs = "(area_size cfg div 2, 20)"
  let ?h1 = "\<lparr>cell = (\<lambda>a. [])(0 := ns), fresh = Suc 0\<rparr>"
  from build_route_greedy[of ?h1 0 ?bs] obtain tour where
    t: "build_route ?h1 0 ?bs =
          Some (Inr (fresh ?h1 + 2,
            \<lparr>cell = (cell ?h1)(fresh ?h1 := [], fresh ?h1 + 1 := ?bs # tour, fresh ?h1 + 2 := ?bs # tour),
             fresh = fresh ?h1 + 3\<rparr>))"
       "greedy_from ?bs (cell ?h1 0) tour" by blast
  show ?thesis
  proof (cases "enable_cluster cfg")
    case True
    from clustering_ok[of "num_nodes cfg" ns] obtain cs cl where
      c: "clustering (num_nodes cfg) ns = Inr (cs, cl)" by blast
    show ?thesis
      using t True c assms
      by - (rule exI[of _ tour], rule exI[of _ cs], rule exI[of _ cl], simp add: simulate_def alloc_def empty_store_def Let_def)
  next
    case False
    show ?thesis
      using t False assms
      by - (rule exI[of _ tour], rule exI[of _ "[]"], rule exI[of _ Map.empty], simp add: simulate_def alloc_def empty_store_def Let_def)
  qed
qed

lemma example_random_in_range: "rng_in_range example_random"
proof -
  have "low + int g mod (high - low) < high" if "low < high" for g low high
    using pos_mod_bound[of "high - low" "int g"] that by linarith
  moreover have "low \<le> low + int g mod (high - low)" if "low < high" for g low high
    using pos_mod_sign[of "high - low" "int g"] that by linarith
  ultimately show ?thesis by (simp add: rng_in_range_def example_random_def)
qed

lemma simulate_valid:
  assumes "valid_config cfg"
  shows "\<exists>tour cs cl g.
     simulate np cfg g0 =
       Some (Inr (\<lparr>nodes = fst (draw_points np 50 (area_size cfg - 50) (nat (num_nodes cfg)) (rng_seed np 3)),
                   base_station = (area_size cfg div 2, 20),
                   cluster_centers = cs,
                   clusters = cl,
                   route = (area_size cfg div 2, 20) # tour,
                   link_metrics = comm_model np (network_type cfg) (enable_sofar cfg)
                                    (area_size cfg div 2, 20)
                                    (fst (draw_points np 50 (area_size cfg - 50) (nat (num_nodes cfg)) (rng_seed np 3)))\<rparr>, g))
     \<and> greedy_from (area_size cfg div 2, 20)
          (fst (draw_points np 50 (area_size cfg - 50) (nat (num_nodes cfg)) (rng_seed np 3))) tour
     \<and> (if enable_cluster cfg
        then clustering (num_nodes cfg)
               (fst (draw_points np 50 (area_size cfg - 50) (nat (num_nodes cfg)) (rng_seed np 3))) = Inr (cs, cl)
        else cs = [] \<and> cl = Map.empty)"
proof -
  let ?dp = "draw_points np 50 (area_size cfg - 50) (nat (num_nodes cfg)) (rng_seed np 3)"
  have "randint np 50 (area_size cfg - 50) (num_nodes cfg) (rng_seed np 3) = Inr (fst ?dp, snd ?dp)"
    using randint_valid[OF assms] by simp
  from simulate_run[OF this, of g0] show ?thesis by blast
qed

section \<open>Properties of the run\<close>

subsection \<open>The route\<close>

text \<open>
  Claim C6. For every valid configuration the run ends with a route that starts at the
  base station and has \<open>num_nodes + 1\<close> entries; the entries after the first are the
  nodes, each as often as it occurs among the nodes (so each node once, and without
  repetition when no two nodes coincide), in greedy nearest-neighbour order: every entry
  is the first nearest, from the entry before it, of the nodes not yet visited.
\<close>


theorem route_is_greedy_nearest_neighbour_tour:
  assumes "valid_config cfg"
  shows "\<exists>b g tour.
     simulate np cfg g0 = Some (Inr (b, g))
     \<and> route b = base_station b # tour
     \<and> length (route b) = nat (num_nodes cfg) + 1
     \<and> mset tour = mset (nodes b)
     \<and> (distinct (nodes b) \<longrightarrow> distinct tour)
     \<and> greedy_from (base_station b) (nodes b) tour"
proof -
  let ?ns = "fst (draw_points np 50 (area_size cfg - 50) (nat (num_nodes cfg)) (rng_seed np 3))"
  from simulate_valid[OF assms, of np g0] obtain tour cs cl g b where
    s: "simulate np cfg g0 = Some (Inr (b, g))"
    and b: "b = \<lparr>nodes = ?ns, base_station = (area_size cfg div 2, 20), cluster_centers = cs,
                 clusters = cl, route = (area_size cfg div 2, 20) # tour,
                 link_metrics = comm_model np (network_type cfg) (enable_sofar cfg)
                                  (area_size cfg div 2, 20) ?ns\<rparr>"
    and g: "greedy_from (area_size cfg div 2, 20) ?ns tour" by blast
  have m: "mset tour = mset ?ns" using greedy_from_mset[OF g] .
  then have len: "length tour = nat (num_nodes cfg)"
    using mset_eq_length[OF m] by (simp add: length_draw_points)
  have d: "distinct ?ns \<longrightarrow> distinct tour" using mset_eq_imp_distinct_iff[OF m] by simp
  show ?thesis
    using s g m len d by (intro exI[of _ b] exI[of _ g] exI[of _ tour]) (simp add: b)
qed

theorem route_is_greedy_nearest_neighbour_tour_witness:
  "valid_config \<lparr>num_nodes = 4, area_size = 1000, network_type = Cabled_Fiber,
                 enable_cluster = False, sofar_checkbox = False\<rparr>
   \<and> (\<exists>b g tour.
     simulate example_random \<lparr>num_nodes = 4, area_size = 1000, network_type = Cabled_Fiber,
                 enable_cluster = False, sofar_checkbox = False\<rparr> 0 = Some (Inr (b, g))
     \<and> route b = base_station b # tour
     \<and> length (route b) = 5
     \<and> mset tour = mset (nodes b)
     \<and> greedy_from (base_station b) (nodes b) tour)"
proof -
  let ?cfg = "\<lparr>num_nodes = 4, area_size = 1000, network_type = Cabled_Fiber,
                 enable_cluster = False, sofar_checkbox = False\<rparr>"
  have v: "valid_config ?cfg" by (simp add: valid_config_def int64_max_def)
  from route_is_greedy_nearest_neighbour_tour[OF v, of example_random 0] v
  show ?thesis by auto
qed

text \<open>
  The loop run on three nodes from the base station \<open>(100, 20)\<close>. The nearest node is
  \<open>(60, 50)\<close>; from there \<open>(100, 120)\<close> and \<open>(140, 60)\<close> are equally far, and the one that
  comes first among the remaining nodes is visited first. The node array at address 0 is
  as before.
\<close>

lemma example_route:
  "build_route \<lparr>cell = (\<lambda>a. [])(0 := [(100, 120), (60, 50), (140, 60)]), fresh = 1\<rparr> 0 (100, 20)
   = Some (Inr (3, \<lparr>cell = (\<lambda>a. [])(0 := [(100, 120), (60, 50), (140, 60)], 1 := [],
                        2 := [(100, 20), (60, 50), (100, 120), (140, 60)],
                        3 := [(100, 20), (60, 50), (100, 120), (140, 60)]), fresh = 4\<rparr>))"
proof -
  have "(50::real)\<^sup>2 \<le> 3200" by simp
  then have "50 \<le> sqrt 3200" by (rule real_le_rsqrt)
  then have far: "\<not> sqrt 3200 < 50" by simp
  show ?thesis
    by (simp add: build_route_def alloc_def Let_def route_loop.simps py_min_def list_append_def
        list_remove_def distance_def far fun_eq_iff)
qed

subsection \<open>Clustering\<close>

lemma mset_concat_filter_index:
  assumes "\<forall>x \<in> set xs. f x < k"
  shows "mset (concat (map (\<lambda>i. filter (\<lambda>x. f x = i) xs) [0..<k])) = mset xs"
proof -
  have split: "mset (filter (\<lambda>x. f x < m) xs) + mset (filter (\<lambda>x. f x = m) xs)
               = mset (filter (\<lambda>x. f x < Suc m) xs)" for m
    by (induction xs) (auto simp: less_Suc_eq)
  have gen: "mset (concat (map (\<lambda>i. filter (\<lambda>x. f x = i) xs) [0..<m]))
             = mset (filter (\<lambda>x. f x < m) xs)" for m
  proof (induction m)
    case 0
    show ?case by simp
  next
    case (Suc m)
    then show ?case using split[of m] by simp
  qed
  have "filter (\<lambda>x. f x < k) xs = xs" using assms by (simp add: filter_id_conv)
  with gen[of k] show ?thesis by simp
qed

lemma clustering_first_argmin:
  assumes "ns \<noteq> []"
  shows "clustering n ns =
     Inr (take (nat (cluster_count n)) ns,
          \<lambda>i. if i < nat (cluster_count n)
               then Some (filter (\<lambda>node. first_argmin
                            (map (\<lambda>c. distance node c) (take (nat (cluster_count n)) ns)) i) ns)
               else None)"
proof -
  have "0 < nat (cluster_count n)" by (simp add: cluster_count_def)
  then have "take (nat (cluster_count n)) ns \<noteq> []" using assms by simp
  then have "map (\<lambda>c. distance node c) (take (nat (cluster_count n)) ns) \<noteq> []" for node by simp
  from np_argmin_iff[OF this]
  have eq: "(np_argmin (map (\<lambda>c. distance node c) (take (nat (cluster_count n)) ns)) = Inr i)
      = first_argmin (map (\<lambda>c. distance node c) (take (nat (cluster_count n)) ns)) i" for node i .
  show ?thesis unfolding clustering_ok eq ..
qed

text \<open>
  Claim C7. For every valid configuration with clustering enabled the run ends with
  \<open>k = max 2 (num_nodes div 4)\<close> member lists, under the keys \<open>0, ..., k - 1\<close>. The member
  list of cluster \<open>i\<close> holds, in generation order, exactly the nodes whose nearest centre
  is centre \<open>i\<close>, the lowest index winning a tie. The lists partition the nodes: taken
  together they hold every node as often as it occurs among the nodes, and every node is
  in the list of exactly one cluster.
\<close>

theorem clusters_partition_nodes_by_nearest_center:
  assumes "valid_config cfg" "enable_cluster cfg"
  shows "\<exists>b g k.
     simulate np cfg g0 = Some (Inr (b, g))
     \<and> k = nat (cluster_count (num_nodes cfg))
     \<and> cluster_centers b = take k (nodes b)
     \<and> dom (clusters b) = {0..<k}
     \<and> (\<forall>i < k. clusters b i =
           Some (filter (\<lambda>node. first_argmin (map (\<lambda>c. distance node c) (cluster_centers b)) i)
                   (nodes b)))
     \<and> mset (concat (map (\<lambda>i. the (clusters b i)) [0..<k])) = mset (nodes b)
     \<and> (\<forall>node \<in> set (nodes b). \<exists>!i. i < k \<and> node \<in> set (the (clusters b i)))"
proof -
  let ?ns = "fst (draw_points np 50 (area_size cfg - 50) (nat (num_nodes cfg)) (rng_seed np 3))"
  let ?k = "nat (cluster_count (num_nodes cfg))"
  let ?cs = "take ?k ?ns"
  let ?P = "\<lambda>i node. first_argmin (map (\<lambda>c. distance node c) ?cs) i"
  let ?cl = "\<lambda>i. if i < ?k then Some (filter (?P i) ?ns) else None"
  have "length ?ns = nat (num_nodes cfg)" by (rule length_draw_points)
  then have ne: "?ns \<noteq> []" using assms(1) by (auto simp: valid_config_def)
  from simulate_valid[OF assms(1), of np g0] assms(2) obtain tour cs cl g b where
    s: "simulate np cfg g0 = Some (Inr (b, g))"
    and b: "b = \<lparr>nodes = ?ns, base_station = (area_size cfg div 2, 20), cluster_centers = cs,
                 clusters = cl, route = (area_size cfg div 2, 20) # tour,
                 link_metrics = comm_model np (network_type cfg) (enable_sofar cfg)
                                  (area_size cfg div 2, 20) ?ns\<rparr>"
    and c: "clustering (num_nodes cfg) ?ns = Inr (cs, cl)" by auto
  from c clustering_first_argmin[OF ne, of "num_nodes cfg"] have cs: "cs = ?cs" and cl: "cl = ?cl"
    by simp_all
  have kpos: "0 < ?k" by (simp add: cluster_count_def)
  have csne: "?cs \<noteq> []" using ne kpos by simp
  define f where "f node = (case np_argmin (map (\<lambda>c. distance node c) ?cs) of Inr i \<Rightarrow> i | Inl e \<Rightarrow> 0)"
    for node
  have Pf: "?P i node \<longleftrightarrow> f node = i" for i node
  proof -
    have "map (\<lambda>c. distance node c) ?cs \<noteq> []" using csne by simp
    from np_argmin_first[OF this] obtain j where
      j: "np_argmin (map (\<lambda>c. distance node c) ?cs) = Inr j"
         "first_argmin (map (\<lambda>c. distance node c) ?cs) j" by blast
    have fj: "f node = j" by (simp add: f_def j(1))
    show ?thesis
    proof
      assume "?P i node"
      from first_argmin_unique[OF this j(2)] show "f node = i" using fj by simp
    next
      assume "f node = i"
      then show "?P i node" using j(2) fj by simp
    qed
  qed
  have flt: "f node < ?k" for node
  proof -
    have "?P (f node) node" by (simp add: Pf)
    then have "f node < length ?cs" by (simp add: first_argmin_def)
    then show ?thesis by simp
  qed
  have dom: "dom ?cl = {0..<?k}" by (auto split: if_splits)
  have part: "mset (concat (map (\<lambda>i. the (?cl i)) [0..<?k])) = mset ?ns"
  proof -
    have m: "map (\<lambda>i. the (?cl i)) [0..<?k] = map (\<lambda>i. filter (\<lambda>x. f x = i) ?ns) [0..<?k]"
      by (simp add: Pf)
    have bound: "\<forall>x \<in> set ?ns. f x < ?k" using flt by simp
    show ?thesis unfolding m by (rule mset_concat_filter_index[OF bound])
  qed
  have uniq: "\<forall>node \<in> set ?ns. \<exists>!i. i < ?k \<and> node \<in> set (the (?cl i))"
  proof
    fix node assume n: "node \<in> set ?ns"
    show "\<exists>!i. i < ?k \<and> node \<in> set (the (?cl i))"
    proof (rule ex1I[of _ "f node"])
      show "f node < ?k \<and> node \<in> set (the (?cl (f node)))" using flt[of node] n by (simp add: Pf)
    next
      fix i assume "i < ?k \<and> node \<in> set (the (?cl i))"
      then show "i = f node" by (auto simp: Pf)
    qed
  qed
  have members: "\<forall>i < ?k. ?cl i = Some (filter (?P i) ?ns)" by simp
  have fb: "nodes b = ?ns" "cluster_centers b = ?cs" "clusters b = ?cl" by (simp_all add: b cs cl)
  have 1: "cluster_centers b = take ?k (nodes b)" unfolding fb ..
  have 2: "dom (clusters b) = {0..<?k}" unfolding fb by (rule dom)
  have 3: "\<forall>i < ?k. clusters b i =
           Some (filter (\<lambda>node. first_argmin (map (\<lambda>c. distance node c) (cluster_centers b)) i)
                   (nodes b))" unfolding fb by (rule members)
  have 4: "mset (concat (map (\<lambda>i. the (clusters b i)) [0..<?k])) = mset (nodes b)"
    unfolding fb by (rule part)
  have 5: "\<forall>node \<in> set (nodes b). \<exists>!i. i < ?k \<and> node \<in> set (the (clusters b i))"
    unfolding fb by (rule uniq)
  show ?thesis
    by (rule exI[of _ b], rule exI[of _ g], rule exI[of _ ?k]) (intro conjI s refl 1 2 3 4 5)
qed

theorem clusters_partition_nodes_by_nearest_center_witness:
  "valid_config \<lparr>num_nodes = 10, area_size = 1200, network_type = Acoustic,
                 enable_cluster = True, sofar_checkbox = False\<rparr>
   \<and> (\<exists>b g.
     simulate example_random \<lparr>num_nodes = 10, area_size = 1200, network_type = Acoustic,
                 enable_cluster = True, sofar_checkbox = False\<rparr> 0 = Some (Inr (b, g))
     \<and> cluster_centers b = take 2 (nodes b)
     \<and> dom (clusters b) = {0..<2}
     \<and> mset (concat (map (\<lambda>i. the (clusters b i)) [0..<2])) = mset (nodes b))"
proof -
  let ?cfg = "\<lparr>num_nodes = 10, area_size = 1200, network_type = Acoustic,
                 enable_cluster = True, sofar_checkbox = False\<rparr>"
  have v: "valid_config ?cfg" by (simp add: valid_config_def int64_max_def)
  have e: "enable_cluster ?cfg" by simp
  have k: "nat (cluster_count (num_nodes ?cfg)) = 2" by (simp add: cluster_count_def)
  from clusters_partition_nodes_by_nearest_center[OF v e, of example_random 0]
  obtain b g where
    "simulate example_random ?cfg 0 = Some (Inr (b, g))"
    "cluster_centers b = take 2 (nodes b)"
    "dom (clusters b) = {0..<2}"
    "mset (concat (map (\<lambda>i. the (clusters b i)) [0..<2])) = mset (nodes b)"
    unfolding k by blast
  with v show ?thesis by blast
qed

subsection \<open>The node array across route construction\<close>

text \<open>
  Claim C10. \<open>build_route\<close> works on a copy: for a node array that exists in the store
  the call returns, its result is a new object, and the node array (like every object
  that existed before the call) holds afterwards what it held before. In a run the
  per-node loop that follows therefore iterates over the nodes as generated, in
  generation order: the bundle's nodes are the generated ones and the i-th result
  belongs to the i-th node.
\<close>

theorem build_route_leaves_nodes_unchanged:
  "(nodes_a < fresh h \<longrightarrow>
      (\<exists>r h'. build_route h nodes_a start = Some (Inr (r, h'))
         \<and> cell h' nodes_a = cell h nodes_a
         \<and> (\<forall>a < fresh h. cell h' a = cell h a)
         \<and> fresh h \<le> r))
   \<and> (valid_config cfg \<longrightarrow>
      (\<exists>b g. simulate np cfg g0 = Some (Inr (b, g))
         \<and> nodes b = fst (draw_points np 50 (area_size cfg - 50) (nat (num_nodes cfg)) (rng_seed np 3))
         \<and> results (link_metrics b) =
             map (\<lambda>node. (float_round (round_up_at_tie np) (link_distance (network_type cfg) (enable_sofar cfg) node (base_station b)) 2,
                           float_round (round_up_at_tie np) (link_delay (network_type cfg) (enable_sofar cfg) node (base_station b)) 6,
                           float_round (round_up_at_tie np) (link_energy (network_type cfg) (enable_sofar cfg) node (base_station b)) 3))
               (nodes b)))"
proof (intro conjI impI)
  assume lt: "nodes_a < fresh h"
  from build_route_greedy[of h nodes_a start] obtain tour where
    t: "build_route h nodes_a start =
      Some (Inr (fresh h + 2,
        \<lparr>cell = (cell h)(fresh h := [], fresh h + 1 := start # tour, fresh h + 2 := start # tour),
         fresh = fresh h + 3\<rparr>))" by blast
  let ?h' = "\<lparr>cell = (cell h)(fresh h := [], fresh h + 1 := start # tour, fresh h + 2 := start # tour),
         fresh = fresh h + 3\<rparr>"
  have "cell ?h' nodes_a = cell h nodes_a" using lt by simp
  moreover have "\<forall>a < fresh h. cell ?h' a = cell h a" by simp
  moreover have "fresh h \<le> fresh h + 2" by simp
  ultimately show "\<exists>r h'. build_route h nodes_a start = Some (Inr (r, h'))
         \<and> cell h' nodes_a = cell h nodes_a
         \<and> (\<forall>a < fresh h. cell h' a = cell h a)
         \<and> fresh h \<le> r"
    using t by blast
next
  assume v: "valid_config cfg"
  let ?ns = "fst (draw_points np 50 (area_size cfg - 50) (nat (num_nodes cfg)) (rng_seed np 3))"
  from simulate_valid[OF v, of np g0] obtain tour cs cl g b where
    s: "simulate np cfg g0 = Some (Inr (b, g))"
    and b: "b = \<lparr>nodes = ?ns, base_station = (area_size cfg div 2, 20), cluster_centers = cs,
                 clusters = cl, route = (area_size cfg div 2, 20) # tour,
                 link_metrics = comm_model np (network_type cfg) (enable_sofar cfg)
                                  (area_size cfg div 2, 20) ?ns\<rparr>" by blast
  have "nodes b = ?ns" by (simp add: b)
  moreover have "results (link_metrics b) =
             map (\<lambda>node. (float_round (round_up_at_tie np) (link_distance (network_type cfg) (enable_sofar cfg) node (base_station b)) 2,
                           float_round (round_up_at_tie np) (link_delay (network_type cfg) (enable_sofar cfg) node (base_station b)) 6,
                           float_round (round_up_at_tie np) (link_energy (network_type cfg) (enable_sofar cfg) node (base_station b)) 3))
               (nodes b)"
    by (simp add: b comm_model_eq)
  ultimately show "\<exists>b g. simulate np cfg g0 = Some (Inr (b, g))
         \<and> nodes b = ?ns
         \<and> results (link_metrics b) =
             map (\<lambda>node. (float_round (round_up_at_tie np) (link_distance (network_type cfg) (enable_sofar cfg) node (base_station b)) 2,
                           float_round (round_up_at_tie np) (link_delay (network_type cfg) (enable_sofar cfg) node (base_station b)) 6,
                           float_round (round_up_at_tie np) (link_energy (network_type cfg) (enable_sofar cfg) node (base_station b)) 3))
               (nodes b)"
    using s by blast
qed

theorem build_route_leaves_nodes_unchanged_witness:
  "(0::nat) < fresh \<lparr>cell = (\<lambda>a. [])(0 := [(100, 120), (60, 50)]), fresh = 1\<rparr>
   \<and> (\<exists>r h'. build_route \<lparr>cell = (\<lambda>a. [])(0 := [(100, 120), (60, 50)]), fresh = 1\<rparr> 0 (100, 20)
                  = Some (Inr (r, h'))
         \<and> cell h' 0 = [(100, 120), (60, 50)]
         \<and> 1 \<le> r)
   \<and> valid_config \<lparr>num_nodes = 4, area_size = 200, network_type = RF_Telemetry,
                    enable_cluster = False, sofar_checkbox = False\<rparr>
   \<and> (\<exists>b g. simulate example_random \<lparr>num_nodes = 4, area_size = 200, network_type = RF_Telemetry,
                    enable_cluster = False, sofar_checkbox = False\<rparr> 0 = Some (Inr (b, g))
         \<and> length (results (link_metrics b)) = length (nodes b))"
proof -
  let ?h = "\<lparr>cell = (\<lambda>a. [])(0 := [(100, 120), (60, 50)]), fresh = 1\<rparr>"
  let ?cfg = "\<lparr>num_nodes = 4, area_size = 200, network_type = RF_Telemetry,
                    enable_cluster = False, sofar_checkbox = False\<rparr>"
  have lt: "0 < fresh ?h" by simp
  have v: "valid_config ?cfg" by (simp add: valid_config_def int64_max_def)
  note th = build_route_leaves_nodes_unchanged[of 0 ?h "(100, 20)" ?cfg example_random 0]
  from th lt obtain r h' where
    "build_route ?h 0 (100, 20) = Some (Inr (r, h'))" "cell h' 0 = cell ?h 0" "fresh ?h \<le> r"
    by blast
  then have 1: "\<exists>r h'. build_route ?h 0 (100, 20) = Some (Inr (r, h'))
         \<and> cell h' 0 = [(100, 120), (60, 50)] \<and> 1 \<le> r" by auto
  from th v obtain b g where
    "simulate example_random ?cfg 0 = Some (Inr (b, g))"
    "results (link_metrics b) =
             map (\<lambda>node. (float_round (round_up_at_tie example_random) (link_distance (network_type ?cfg) (enable_sofar ?cfg) node (base_station b)) 2,
                           float_round (round_up_at_tie example_random) (link_delay (network_type ?cfg) (enable_sofar ?cfg) node (base_station b)) 6,
                           float_round (round_up_at_tie example_random) (link_energy (network_type ?cfg) (enable_sofar ?cfg) node (base_station b)) 3))
               (nodes b)"
    by blast
  then have 2: "\<exists>b g. simulate example_random ?cfg 0 = Some (Inr (b, g))
         \<and> length (results (link_metrics b)) = length (nodes b)"
    by (intro exI[of _ b] exI[of _ g]) simp
  from lt 1 v 2 show ?thesis by blast
qed

subsection \<open>Determinism\<close>

text \<open>
  Claim C9. A run reseeds the process-wide generator with the constant 3 before it draws,
  so its outcome does not depend on the state the generator was in: two runs of the same
  configuration, from any two generator states, have the same outcome, and for a valid
  configuration both return the same bundle (with the same node coordinates) and leave
  the same generator state behind.
\<close>

theorem runs_are_deterministic:
  "simulate np cfg g0 = simulate np cfg g0'
   \<and> (valid_config cfg \<longrightarrow>
       (\<exists>b g. simulate np cfg g0 = Some (Inr (b, g)) \<and> simulate np cfg g0' = Some (Inr (b, g))
          \<and> nodes b = fst (draw_points np 50 (area_size cfg - 50) (nat (num_nodes cfg)) (rng_seed np 3))))"
proof (intro conjI impI)
  show eq: "simulate np cfg g0 = simulate np cfg g0'" by (simp add: simulate_def)
  assume v: "valid_config cfg"
  let ?ns = "fst (draw_points np 50 (area_size cfg - 50) (nat (num_nodes cfg)) (rng_seed np 3))"
  from simulate_valid[OF v, of np g0] obtain tour cs cl g b where
    s: "simulate np cfg g0 = Some (Inr (b, g))"
    and b: "b = \<lparr>nodes = ?ns, base_station = (area_size cfg div 2, 20), cluster_centers = cs,
                 clusters = cl, route = (area_size cfg div 2, 20) # tour,
                 link_metrics = comm_model np (network_type cfg) (enable_sofar cfg)
                                  (area_size cfg div 2, 20) ?ns\<rparr>" by blast
  have "nodes b = ?ns" by (simp add: b)
  with s eq show "\<exists>b g. simulate np cfg g0 = Some (Inr (b, g)) \<and> simulate np cfg g0' = Some (Inr (b, g))
          \<and> nodes b = ?ns" by auto
qed

theorem runs_are_deterministic_witness:
  "simulate example_random \<lparr>num_nodes = 10, area_size = 1200, network_type = Acoustic,
       enable_cluster = True, sofar_checkbox = True\<rparr> 0
   = simulate example_random \<lparr>num_nodes = 10, area_size = 1200, network_type = Acoustic,
       enable_cluster = True, sofar_checkbox = True\<rparr> 41
   \<and> valid_config \<lparr>num_nodes = 10, area_size = 1200, network_type = Acoustic,
       enable_cluster = True, sofar_checkbox = True\<rparr>
   \<and> (\<exists>b g. simulate example_random \<lparr>num_nodes = 10, area_size = 1200, network_type = Acoustic,
       enable_cluster = True, sofar_checkbox = True\<rparr> 0 = Some (Inr (b, g))
         \<and> simulate example_random \<lparr>num_nodes = 10, area_size = 1200, network_type = Acoustic,
       enable_cluster = True, sofar_checkbox = True\<rparr> 41 = Some (Inr (b, g)))"
proof -
  let ?cfg = "\<lparr>num_nodes = 10, area_size = 1200, network_type = Acoustic,
       enable_cluster = True, sofar_checkbox = True\<rparr>"
  have v: "valid_config ?cfg" by (simp add: valid_config_def int64_max_def)
  from runs_are_deterministic[of example_random ?cfg 0 41] v show ?thesis by blast
qed

subsection \<open>Node generation\<close>

text \<open>
  Claim C8. For a valid configuration, and a generator whose bounded draws lie in the
  requested half-open interval, the run generates \<open>num_nodes\<close> points with both integer
  coordinates in \<open>[50, area_size - 50)\<close>, and the base station is the point
  \<open>(area_size / 2\<close> rounded toward zero, \<open>20)\<close>, a function of \<open>area_size\<close> alone.
\<close>

theorem nodes_in_margin_and_base_station:
  assumes "valid_config cfg" "rng_in_range np"
  shows "\<exists>b g. simulate np cfg g0 = Some (Inr (b, g))
     \<and> length (nodes b) = nat (num_nodes cfg)
     \<and> (\<forall>p \<in> set (nodes b). 50 \<le> fst p \<and> fst p < area_size cfg - 50
                              \<and> 50 \<le> snd p \<and> snd p < area_size cfg - 50)
     \<and> base_station b = (round_toward_zero (real_of_int (area_size cfg) / 2), 20)"
proof -
  let ?ns = "fst (draw_points np 50 (area_size cfg - 50) (nat (num_nodes cfg)) (rng_seed np 3))"
  from simulate_valid[OF assms(1), of np g0] obtain tour cs cl g b where
    s: "simulate np cfg g0 = Some (Inr (b, g))"
    and b: "b = \<lparr>nodes = ?ns, base_station = (area_size cfg div 2, 20), cluster_centers = cs,
                 clusters = cl, route = (area_size cfg div 2, 20) # tour,
                 link_metrics = comm_model np (network_type cfg) (enable_sofar cfg)
                                  (area_size cfg div 2, 20) ?ns\<rparr>" by blast
  have lo: "(50::int) < area_size cfg - 50" using assms(1) by (simp add: valid_config_def)
  have 1: "length (nodes b) = nat (num_nodes cfg)" by (simp add: b length_draw_points)
  have 2: "\<forall>p \<in> set (nodes b). 50 \<le> fst p \<and> fst p < area_size cfg - 50
                              \<and> 50 \<le> snd p \<and> snd p < area_size cfg - 50"
    using draw_points_in_range[OF assms(2) lo] by (simp add: b)
  have pos: "0 \<le> real_of_int (area_size cfg) / 2" using assms(1) by (simp add: valid_config_def)
  have "\<lfloor>real_of_int (area_size cfg) / 2\<rfloor> = area_size cfg div 2"
    using floor_divide_of_int_eq[of "area_size cfg" 2, where ?'a = real] by simp
  then have 3: "base_station b = (round_toward_zero (real_of_int (area_size cfg) / 2), 20)"
    using pos by (simp add: b round_toward_zero_def)
  from s 1 2 3 show ?thesis by blast
qed

theorem nodes_in_margin_and_base_station_witness:
  "valid_config \<lparr>num_nodes = 4, area_size = 1000, network_type = Cabled_Fiber,
                 enable_cluster = False, sofar_checkbox = False\<rparr>
   \<and> rng_in_range example_random
   \<and> (\<exists>b g. simulate example_random \<lparr>num_nodes = 4, area_size = 1000, network_type = Cabled_Fiber,
                 enable_cluster = False, sofar_checkbox = False\<rparr> 0 = Some (Inr (b, g))
     \<and> length (nodes b) = 4
     \<and> (\<forall>p \<in> set (nodes b). 50 \<le> fst p \<and> fst p < 950 \<and> 50 \<le> snd p \<and> snd p < 950)
     \<and> base_station b = (500, 20))"
proof -
  let ?cfg = "\<lparr>num_nodes = 4, area_size = 1000, network_type = Cabled_Fiber,
                 enable_cluster = False, sofar_checkbox = False\<rparr>"
  have v: "valid_config ?cfg" by (simp add: valid_config_def int64_max_def)
  have r: "round_toward_zero (real_of_int (area_size ?cfg) / 2) = 500"
    by (simp add: round_toward_zero_def)
  from nodes_in_margin_and_base_station[OF v example_random_in_range, of 0]
  obtain b g where
    "simulate example_random ?cfg 0 = Some (Inr (b, g))"
    "length (nodes b) = nat (num_nodes ?cfg)"
    "\<forall>p \<in> set (nodes b). 50 \<le> fst p \<and> fst p < area_size ?cfg - 50
                              \<and> 50 \<le> snd p \<and> snd p < area_size ?cfg - 50"
    "base_station b = (round_toward_zero (real_of_int (area_size ?cfg) / 2), 20)"
    by blast
  then have "\<exists>b g. simulate example_random ?cfg 0 = Some (Inr (b, g))
     \<and> length (nodes b) = 4
     \<and> (\<forall>p \<in> set (nodes b). 50 \<le> fst p \<and> fst p < 950 \<and> 50 \<le> snd p \<and> snd p < 950)
     \<and> base_station b = (500, 20)"
    unfolding r by (intro exI[of _ b] exI[of _ g]) simp
  with v example_random_in_range show ?thesis by blast
qed

subsection \<open>The communication model\<close>

lemma round_half_even_upper: "real_of_int (round_half_even y) \<le> y + 1 / 2"
  by (auto simp: round_half_even_def Let_def; insert of_int_floor_le[of y], linarith)

lemma py_round_upper: "py_round x 2 \<le> x + 1 / 200"
proof -
  have "real_of_int (round_half_even (x * 10 ^ 2)) \<le> x * 10 ^ 2 + 1 / 2"
    by (rule round_half_even_upper)
  then have "real_of_int (round_half_even (x * 10 ^ 2)) / 10 ^ 2 \<le> (x * 10 ^ 2 + 1 / 2) / 10 ^ 2"
    by (simp add: divide_right_mono)
  then show ?thesis by (simp add: py_round_def add_divide_distrib)
qed

lemma distance_lower:
  assumes "50 \<le> snd p"
  shows "30 \<le> distance p (c, 20)"
proof -
  have "real_of_int ((snd p - 20)\<^sup>2) \<le> real_of_int ((fst p - c)\<^sup>2 + (snd p - 20)\<^sup>2)"
    by simp
  then have "sqrt (real_of_int ((snd p - 20)\<^sup>2)) \<le> distance p (c, 20)"
    unfolding distance_def by (simp only: real_sqrt_le_iff fst_conv snd_conv)
  moreover have "sqrt (real_of_int ((snd p - 20)\<^sup>2)) = \<bar>real_of_int (snd p - 20)\<bar>"
    by (simp only: of_int_power real_sqrt_abs)
  moreover have "30 \<le> \<bar>real_of_int (snd p - 20)\<bar>" using assms by simp
  ultimately show ?thesis by simp
qed

lemma distance_100: "distance (100, 120) (100, 20) = 100"
  by (simp add: distance_def real_sqrt_unique)

text \<open>
  Claim C1, as amended. Under acoustic transport with the SOFAR effect on, the distance
  stored in a node's result record is the SOFAR-adjusted distance: 0.8 times the
  Euclidean distance from the node to the base station, rounded to two decimals. The
  variable \<open>d\<close> is overwritten before the record is built. For a generator that honours
  the range of its draws the stored value is strictly smaller than the full distance for
  every node. The counterexample is a node 100 m from the base station, whose record
  holds 80.
\<close>

theorem sofar_stored_distance_is_adjusted:
  assumes "valid_config cfg" "network_type cfg = Acoustic" "sofar_checkbox cfg"
  shows "\<exists>b g. simulate np cfg g0 = Some (Inr (b, g))
     \<and> length (results (link_metrics b)) = length (nodes b)
     \<and> (\<forall>i < length (nodes b).
           fst (results (link_metrics b) ! i)
             = py_round (distance (nodes b ! i) (base_station b) * 0.8) 2)
     \<and> (rng_in_range np \<longrightarrow>
           (\<forall>i < length (nodes b).
              fst (results (link_metrics b) ! i) < distance (nodes b ! i) (base_station b)))"
proof -
  let ?ns = "fst (draw_points np 50 (area_size cfg - 50) (nat (num_nodes cfg)) (rng_seed np 3))"
  let ?bs = "(area_size cfg div 2, 20)"
  from simulate_valid[OF assms(1), of np g0] obtain tour cs cl g b where
    s: "simulate np cfg g0 = Some (Inr (b, g))"
    and b: "b = \<lparr>nodes = ?ns, base_station = ?bs, cluster_centers = cs,
                 clusters = cl, route = ?bs # tour,
                 link_metrics = comm_model np (network_type cfg) (enable_sofar cfg) ?bs ?ns\<rparr>" by blast
  have sofar: "enable_sofar cfg" using assms(2,3) by (simp add: enable_sofar_def)
  have 1: "length (results (link_metrics b)) = length (nodes b)"
    by (simp add: b comm_model_eq)
  have 2: "\<forall>i < length (nodes b).
           fst (results (link_metrics b) ! i)
             = py_round (distance (nodes b ! i) (base_station b) * 0.8) 2"
    by (simp add: b comm_model_eq assms(2) sofar acoustic_stored_distance)
  have 3: "rng_in_range np \<longrightarrow>
           (\<forall>i < length (nodes b).
              fst (results (link_metrics b) ! i) < distance (nodes b ! i) (base_station b))"
  proof (intro impI allI)
    fix i assume r: "rng_in_range np" and i: "i < length (nodes b)"
    have lo: "(50::int) < area_size cfg - 50" using assms(1) by (simp add: valid_config_def)
    have "nodes b ! i \<in> set ?ns" using i by (simp add: b)
    with draw_points_in_range[OF r lo] have "50 \<le> snd (nodes b ! i)" by blast
    from distance_lower[OF this] have d: "30 \<le> distance (nodes b ! i) (base_station b)"
      by (simp add: b)
    have "fst (results (link_metrics b) ! i)
            \<le> distance (nodes b ! i) (base_station b) * 0.8 + 1 / 200"
      using 2 i py_round_upper by simp
    with d show "fst (results (link_metrics b) ! i) < distance (nodes b ! i) (base_station b)"
      by simp
  qed
  from s 1 2 3 show ?thesis by blast
qed

theorem sofar_stored_distance_is_adjusted_witness:
  "valid_config \<lparr>num_nodes = 10, area_size = 1200, network_type = Acoustic,
                 enable_cluster = False, sofar_checkbox = True\<rparr>
   \<and> rng_in_range example_random
   \<and> (\<exists>b g. simulate example_random \<lparr>num_nodes = 10, area_size = 1200, network_type = Acoustic,
                 enable_cluster = False, sofar_checkbox = True\<rparr> 0 = Some (Inr (b, g))
     \<and> length (results (link_metrics b)) = length (nodes b)
     \<and> (\<forall>i < length (nodes b).
           fst (results (link_metrics b) ! i)
             = py_round (distance (nodes b ! i) (base_station b) * 0.8) 2)
     \<and> (\<forall>i < length (nodes b).
              fst (results (link_metrics b) ! i) < distance (nodes b ! i) (base_station b)))"
proof -
  let ?cfg = "\<lparr>num_nodes = 10, area_size = 1200, network_type = Acoustic,
                 enable_cluster = False, sofar_checkbox = True\<rparr>"
  have v: "valid_config ?cfg" by (simp add: valid_config_def int64_max_def)
  have a: "network_type ?cfg = Acoustic" and c: "sofar_checkbox ?cfg" by simp_all
  from sofar_stored_distance_is_adjusted[OF v a c, of example_random 0]
    v example_random_in_range
  show ?thesis by blast
qed

theorem sofar_stored_distance_counterexample:
  "fst (results (comm_model example_random Acoustic True (100, 20) [(100, 120)]) ! 0) = 80
   \<and> distance (100, 120) (100, 20) = 100
   \<and> fst (results (comm_model example_random Acoustic True (100, 20) [(100, 120)]) ! 0)
       \<noteq> distance (100, 120) (100, 20)"
  by (simp add: comm_model_eq link_distance_def link_cost_acoustic distance_100 float_round_def
      Let_def)

text \<open>
  Claim C4, as amended. Under acoustic transport the energy stored in a node's result
  record is 0.12 times the true distance rounded to three decimals, whether or not the
  SOFAR effect is on; the stored delay is (0.8 times the true distance) / 1500 rounded to
  six decimals when it is on, and the true distance / 1500 rounded to six decimals when
  it is off. The counterexample is a node 100 m from the base station without SOFAR: the
  delay is 1/15 s and the record holds 0.066667.
\<close>

theorem acoustic_metrics_are_rounded:
  assumes "valid_config cfg" "network_type cfg = Acoustic"
  shows "\<exists>b g. simulate np cfg g0 = Some (Inr (b, g))
     \<and> length (results (link_metrics b)) = length (nodes b)
     \<and> (\<forall>i < length (nodes b).
           snd (snd (results (link_metrics b) ! i))
             = py_round (distance (nodes b ! i) (base_station b) * 0.12) 3
         \<and> fst (snd (results (link_metrics b) ! i))
             = (if sofar_checkbox cfg
                then py_round (distance (nodes b ! i) (base_station b) * 0.8 / 1500) 6
                else py_round (distance (nodes b ! i) (base_station b) / 1500) 6))"
proof -
  let ?ns = "fst (draw_points np 50 (area_size cfg - 50) (nat (num_nodes cfg)) (rng_seed np 3))"
  let ?bs = "(area_size cfg div 2, 20)"
  from simulate_valid[OF assms(1), of np g0] obtain tour cs cl g b where
    s: "simulate np cfg g0 = Some (Inr (b, g))"
    and b: "b = \<lparr>nodes = ?ns, base_station = ?bs, cluster_centers = cs,
                 clusters = cl, route = ?bs # tour,
                 link_metrics = comm_model np (network_type cfg) (enable_sofar cfg) ?bs ?ns\<rparr>" by blast
  have sofar: "enable_sofar cfg = sofar_checkbox cfg" using assms(2) by (simp add: enable_sofar_def)
  have 1: "length (results (link_metrics b)) = length (nodes b)"
    by (simp add: b comm_model_eq)
  have 2: "\<forall>i < length (nodes b).
           snd (snd (results (link_metrics b) ! i))
             = py_round (distance (nodes b ! i) (base_station b) * 0.12) 3
         \<and> fst (snd (results (link_metrics b) ! i))
             = (if sofar_checkbox cfg
                then py_round (distance (nodes b ! i) (base_station b) * 0.8 / 1500) 6
                else py_round (distance (nodes b ! i) (base_station b) / 1500) 6)"
    by (simp add: b comm_model_eq assms(2) sofar acoustic_stored_energy acoustic_stored_delay)
  from s 1 2 show ?thesis by blast
qed

theorem acoustic_metrics_are_rounded_witness:
  "valid_config \<lparr>num_nodes = 10, area_size = 1200, network_type = Acoustic,
                 enable_cluster = False, sofar_checkbox = True\<rparr>
   \<and> (\<exists>b g. simulate example_random \<lparr>num_nodes = 10, area_size = 1200, network_type = Acoustic,
                 enable_cluster = False, sofar_checkbox = True\<rparr> 0 = Some (Inr (b, g))
     \<and> length (results (link_metrics b)) = length (nodes b)
     \<and> (\<forall>i < length (nodes b).
           snd (snd (results (link_metrics b) ! i))
             = py_round (distance (nodes b ! i) (base_station b) * 0.12) 3
         \<and> fst (snd (results (link_metrics b) ! i))
             = py_round (distance (nodes b ! i) (base_station b) * 0.8 / 1500) 6))"
proof -
  let ?cfg = "\<lparr>num_nodes = 10, area_size = 1200, network_type = Acoustic,
                 enable_cluster = False, sofar_checkbox = True\<rparr>"
  have v: "valid_config ?cfg" by (simp add: valid_config_def int64_max_def)
  have a: "network_type ?cfg = Acoustic" by simp
  from acoustic_metrics_are_rounded[OF v a, of example_random 0] v
  show ?thesis by simp
qed

theorem acoustic_metrics_counterexample:
  "fst (snd (results (comm_model example_random Acoustic False (100, 20) [(100, 120)]) ! 0)) = 66667 / 1000000
   \<and> distance (100, 120) (100, 20) / 1500 = 1 / 15
   \<and> fst (snd (results (comm_model example_random Acoustic False (100, 20) [(100, 120)]) ! 0))
       \<noteq> distance (100, 120) (100, 20) / 1500"
  by (simp add: comm_model_eq link_delay_def link_cost_acoustic distance_100 float_round_def
      Let_def)

lemma link_sync_const:
  "link_sync nt sofar node bs =
     (case nt of RF_Telemetry \<Rightarrow> 0.00002 | Cabled_Fiber \<Rightarrow> 0.00001 | Acoustic \<Rightarrow> 0.002)"
  by (cases nt) (simp_all add: link_sync_def link_cost_def Let_def)

lemma link_delay_rf:
  "link_delay RF_Telemetry sofar node bs = distance node bs / 300000000"
  by (simp add: link_delay_def link_cost_def Let_def)

lemma rf_short_link_stored_delay:
  assumes "0 \<le> d" "d < 150"
  shows "float_round up (d / 300000000) 6 = 0"
proof -
  have y: "d / 300000000 * 10 ^ 6 = d / 300" by simp
  have "0 \<le> d / 300" "d / 300 < 1" using assms by simp_all
  then have f: "\<lfloor>d / 300\<rfloor> = 0" by (simp add: floor_eq_iff)
  have "d / 300 < 1 / 2" using assms by simp
  then show ?thesis unfolding float_round_def Let_def y f by simp
qed

lemma distance_nonneg: "0 \<le> distance p q"
  by (simp add: distance_def)

lemma distance_upper_smallest_area:
  assumes "50 \<le> fst p" "fst p < 150" "50 \<le> snd p" "snd p < 150"
  shows "distance p (100, 20) < 150"
proof -
  have "\<bar>fst p - 100\<bar> \<le> 50" using assms by simp
  then have "\<bar>fst p - 100\<bar>\<^sup>2 \<le> 50\<^sup>2" by (intro power_mono) simp_all
  then have x: "(fst p - 100)\<^sup>2 \<le> 2500" by simp
  have "\<bar>snd p - 20\<bar> \<le> 129" using assms by simp
  then have "\<bar>snd p - 20\<bar>\<^sup>2 \<le> 129\<^sup>2" by (intro power_mono) simp_all
  then have y: "(snd p - 20)\<^sup>2 \<le> 16641" by simp
  have "(fst p - 100)\<^sup>2 + (snd p - 20)\<^sup>2 < 22500" using x y by linarith
  then have "real_of_int ((fst p - 100)\<^sup>2 + (snd p - 20)\<^sup>2) < 150\<^sup>2"
    by (simp only: of_int_less_iff[symmetric, where ?'a = real]) simp
  then have "sqrt (real_of_int ((fst p - 100)\<^sup>2 + (snd p - 20)\<^sup>2)) < 150"
    by (intro real_less_lsqrt) simp_all
  then show ?thesis by (simp add: distance_def)
qed

lemma sum_list_positive:
  fixes f :: "'a \<Rightarrow> real"
  assumes "xs \<noteq> []" "\<forall>x \<in> set xs. 0 < f x"
  shows "0 < (\<Sum>x\<leftarrow>xs. f x)"
  using assms
proof (induction xs)
  case Nil
  then show ?case by simp
next
  case (Cons x xs)
  show ?case
  proof (cases "xs = []")
    case True
    with Cons.prems show ?thesis by simp
  next
    case False
    with Cons have "0 < (\<Sum>x\<leftarrow>xs. f x)" by simp
    moreover have "0 < f x" using Cons.prems by simp
    ultimately show ?thesis by simp
  qed
qed

text \<open>
  Claim C5, as amended. For every valid configuration \<open>total_delay\<close> is the sum over all
  nodes of the delay before rounding and \<open>total_energy\<close> the sum of the energy before
  rounding, while the result records hold what \<open>round\<close> makes of these values at six and
  three decimals; \<open>sync_overhead\<close> is \<open>num_nodes\<close> times the sync constant of the transport
  (as real numbers: the script adds the constant once per node). The totals are therefore
  not the sums of the stored values: with \<open>area_size = 200\<close> and RF telemetry every stored
  delay is 0, whatever nodes the generator draws, and the total delay is positive.
\<close>

theorem totals_sum_unrounded_values:
  assumes "valid_config cfg"
  shows "\<exists>b g. simulate np cfg g0 = Some (Inr (b, g))
     \<and> total_delay (link_metrics b)
         = (\<Sum>node\<leftarrow>nodes b. link_delay (network_type cfg) (enable_sofar cfg) node (base_station b))
     \<and> total_energy (link_metrics b)
         = (\<Sum>node\<leftarrow>nodes b. link_energy (network_type cfg) (enable_sofar cfg) node (base_station b))
     \<and> sync_overhead (link_metrics b)
         = real_of_int (num_nodes cfg)
           * (case network_type cfg of
                RF_Telemetry \<Rightarrow> 0.00002 | Cabled_Fiber \<Rightarrow> 0.00001 | Acoustic \<Rightarrow> 0.002)
     \<and> map (\<lambda>r. fst (snd r)) (results (link_metrics b))
         = map (\<lambda>node. float_round (round_up_at_tie np)
                          (link_delay (network_type cfg) (enable_sofar cfg) node (base_station b)) 6)
             (nodes b)
     \<and> map (\<lambda>r. snd (snd r)) (results (link_metrics b))
         = map (\<lambda>node. float_round (round_up_at_tie np)
                          (link_energy (network_type cfg) (enable_sofar cfg) node (base_station b)) 3)
             (nodes b)
     \<and> (rng_in_range np \<and> area_size cfg = 200 \<and> network_type cfg = RF_Telemetry \<longrightarrow>
           (\<Sum>r\<leftarrow>results (link_metrics b). fst (snd r)) = 0 \<and> 0 < total_delay (link_metrics b))"
proof -
  let ?ns = "fst (draw_points np 50 (area_size cfg - 50) (nat (num_nodes cfg)) (rng_seed np 3))"
  let ?bs = "(area_size cfg div 2, 20)"
  from simulate_valid[OF assms(1), of np g0] obtain tour cs cl g b where
    s: "simulate np cfg g0 = Some (Inr (b, g))"
    and b: "b = \<lparr>nodes = ?ns, base_station = ?bs, cluster_centers = cs,
                 clusters = cl, route = ?bs # tour,
                 link_metrics = comm_model np (network_type cfg) (enable_sofar cfg) ?bs ?ns\<rparr>" by blast
  have len: "length ?ns = nat (num_nodes cfg)" by (rule length_draw_points)
  have n: "real (length ?ns) = real_of_int (num_nodes cfg)"
    using assms by (simp add: len valid_config_def)
  have 1: "total_delay (link_metrics b)
         = (\<Sum>node\<leftarrow>nodes b. link_delay (network_type cfg) (enable_sofar cfg) node (base_station b))"
    by (simp add: b comm_model_eq)
  have 2: "total_energy (link_metrics b)
         = (\<Sum>node\<leftarrow>nodes b. link_energy (network_type cfg) (enable_sofar cfg) node (base_station b))"
    by (simp add: b comm_model_eq)
  have "sync_overhead (link_metrics b)
         = (\<Sum>node\<leftarrow>?ns. (case network_type cfg of
                RF_Telemetry \<Rightarrow> 0.00002 | Cabled_Fiber \<Rightarrow> 0.00001 | Acoustic \<Rightarrow> 0.002))"
    by (simp add: b comm_model_eq link_sync_const)
  then have 3: "sync_overhead (link_metrics b)
         = real_of_int (num_nodes cfg)
           * (case network_type cfg of
                RF_Telemetry \<Rightarrow> 0.00002 | Cabled_Fiber \<Rightarrow> 0.00001 | Acoustic \<Rightarrow> 0.002)"
    by (simp only: sum_list_triv n)
  have 4: "map (\<lambda>r. fst (snd r)) (results (link_metrics b))
         = map (\<lambda>node. float_round (round_up_at_tie np)
                          (link_delay (network_type cfg) (enable_sofar cfg) node (base_station b)) 6)
             (nodes b)"
    by (simp add: b comm_model_eq comp_def)
  have 5: "map (\<lambda>r. snd (snd r)) (results (link_metrics b))
         = map (\<lambda>node. float_round (round_up_at_tie np)
                          (link_energy (network_type cfg) (enable_sofar cfg) node (base_station b)) 3)
             (nodes b)"
    by (simp add: b comm_model_eq comp_def)
  have 6: "rng_in_range np \<and> area_size cfg = 200 \<and> network_type cfg = RF_Telemetry \<longrightarrow>
           (\<Sum>r\<leftarrow>results (link_metrics b). fst (snd r)) = 0 \<and> 0 < total_delay (link_metrics b)"
  proof (intro impI, elim conjE)
    assume r: "rng_in_range np" and a: "area_size cfg = 200" and rf: "network_type cfg = RF_Telemetry"
    have bs: "base_station b = (100, 20)" by (simp add: b a)
    have rng: "\<forall>p \<in> set (nodes b). 50 \<le> fst p \<and> fst p < 150 \<and> 50 \<le> snd p \<and> snd p < 150"
      using draw_points_in_range[OF r, of 50 150 "nat (num_nodes cfg)" "rng_seed np 3"]
      by (simp add: b a)
    have short: "\<forall>p \<in> set (nodes b). distance p (100, 20) < 150"
      using rng distance_upper_smallest_area by blast
    have far: "\<forall>p \<in> set (nodes b). 0 < distance p (100, 20)"
    proof
      fix p assume "p \<in> set (nodes b)"
      with rng have "50 \<le> snd p" by blast
      from distance_lower[OF this, of 100] show "0 < distance p (100, 20)" by simp
    qed
    have zero: "\<forall>p \<in> set (nodes b).
        float_round (round_up_at_tie np) (link_delay RF_Telemetry (enable_sofar cfg) p (100, 20)) 6 = 0"
      using short rf_short_link_stored_delay[OF distance_nonneg] by (simp add: link_delay_rf)
    have "map (\<lambda>node. float_round (round_up_at_tie np)
                  (link_delay (network_type cfg) (enable_sofar cfg) node (base_station b)) 6) (nodes b)
            = map (\<lambda>node. 0) (nodes b)"
      using zero by (intro map_cong refl) (simp add: rf bs)
    then have e1: "map (\<lambda>r. fst (snd r)) (results (link_metrics b)) = map (\<lambda>node. 0) (nodes b)"
      using 4 by simp
    have stored: "(\<Sum>r\<leftarrow>results (link_metrics b). fst (snd r)) = 0"
      unfolding e1 by simp
    have ne: "nodes b \<noteq> []" using assms len by (auto simp: b valid_config_def)
    have "0 < (\<Sum>p\<leftarrow>nodes b. link_delay RF_Telemetry (enable_sofar cfg) p (100, 20))"
      using far by (intro sum_list_positive[OF ne]) (simp add: link_delay_rf)
    then have "0 < total_delay (link_metrics b)" unfolding 1 by (simp add: rf bs)
    with stored show "(\<Sum>r\<leftarrow>results (link_metrics b). fst (snd r)) = 0 \<and> 0 < total_delay (link_metrics b)"
      by simp
  qed
  from s 1 2 3 4 5 6 show ?thesis by blast
qed

theorem totals_sum_unrounded_values_witness:
  "valid_config \<lparr>num_nodes = 4, area_size = 200, network_type = RF_Telemetry,
                 enable_cluster = False, sofar_checkbox = False\<rparr>
   \<and> rng_in_range example_random
   \<and> (\<exists>b g. simulate example_random \<lparr>num_nodes = 4, area_size = 200, network_type = RF_Telemetry,
                 enable_cluster = False, sofar_checkbox = False\<rparr> 0 = Some (Inr (b, g))
     \<and> total_delay (link_metrics b)
         = (\<Sum>node\<leftarrow>nodes b. link_delay RF_Telemetry False node (base_station b))
     \<and> total_energy (link_metrics b)
         = (\<Sum>node\<leftarrow>nodes b. link_energy RF_Telemetry False node (base_station b))
     \<and> sync_overhead (link_metrics b) = 8 / 100000
     \<and> (\<Sum>r\<leftarrow>results (link_metrics b). fst (snd r)) = 0
     \<and> 0 < total_delay (link_metrics b))"
proof -
  let ?cfg = "\<lparr>num_nodes = 4, area_size = 200, network_type = RF_Telemetry,
                 enable_cluster = False, sofar_checkbox = False\<rparr>"
  have v: "valid_config ?cfg" by (simp add: valid_config_def int64_max_def)
  have e: "enable_sofar ?cfg = False" by (simp add: enable_sofar_def)
  have h: "rng_in_range example_random \<and> area_size ?cfg = 200 \<and> network_type ?cfg = RF_Telemetry"
    using example_random_in_range by simp
  from totals_sum_unrounded_values[OF v, of example_random 0] h obtain b g where
    "simulate example_random ?cfg 0 = Some (Inr (b, g))"
    "total_delay (link_metrics b)
         = (\<Sum>node\<leftarrow>nodes b. link_delay (network_type ?cfg) (enable_sofar ?cfg) node (base_station b))"
    "total_energy (link_metrics b)
         = (\<Sum>node\<leftarrow>nodes b. link_energy (network_type ?cfg) (enable_sofar ?cfg) node (base_station b))"
    "sync_overhead (link_metrics b)
         = real_of_int (num_nodes ?cfg)
           * (case network_type ?cfg of
                RF_Telemetry \<Rightarrow> 0.00002 | Cabled_Fiber \<Rightarrow> 0.00001 | Acoustic \<Rightarrow> 0.002)"
    "(\<Sum>r\<leftarrow>results (link_metrics b). fst (snd r)) = 0" "0 < total_delay (link_metrics b)"
    by blast
  then have "\<exists>b g. simulate example_random ?cfg 0 = Some (Inr (b, g))
     \<and> total_delay (link_metrics b)
         = (\<Sum>node\<leftarrow>nodes b. link_delay RF_Telemetry False node (base_station b))
     \<and> total_energy (link_metrics b)
         = (\<Sum>node\<leftarrow>nodes b. link_energy RF_Telemetry False node (base_station b))
     \<and> sync_overhead (link_metrics b) = 8 / 100000
     \<and> (\<Sum>r\<leftarrow>results (link_metrics b). fst (snd r)) = 0
     \<and> 0 < total_delay (link_metrics b)"
    unfolding e by (intro exI[of _ b] exI[of _ g]) simp
  with v example_random_in_range show ?thesis by blast
qed

text \<open>
  The counterexample is the run the script makes with 4 nodes, \<open>area_size = 200\<close> and RF
  telemetry: numpy's generator, seeded with 3, draws the four nodes below. Every link is
  shorter than 150 m, so each stored delay is 0; the total delay is about 0.00000108 s and
  is shown as 0.000001.
\<close>

lemma smallest_area_distances:
  "42 < distance (74, 53) (100, 20)" "distance (74, 53) (100, 20) < 43"
  "102 < distance (106, 122) (100, 20)" "distance (106, 122) (100, 20) < 103"
  "71 < distance (50, 71) (100, 20)" "distance (50, 71) (100, 20) < 72"
  "108 < distance (69, 124) (100, 20)" "distance (69, 124) (100, 20) < 109"
  by (simp_all add: distance_def real_less_rsqrt real_less_lsqrt)

theorem totals_counterexample:
  "(\<Sum>r\<leftarrow>results (comm_model example_random RF_Telemetry False (100, 20)
                    [(74, 53), (106, 122), (50, 71), (69, 124)]). fst (snd r)) = 0
   \<and> 0 < total_delay (comm_model example_random RF_Telemetry False (100, 20)
                        [(74, 53), (106, 122), (50, 71), (69, 124)])
   \<and> float_round (round_up_at_tie example_random)
        (total_delay (comm_model example_random RF_Telemetry False (100, 20)
                        [(74, 53), (106, 122), (50, 71), (69, 124)])) 6 = 1 / 1000000
   \<and> total_delay (comm_model example_random RF_Telemetry False (100, 20)
                     [(74, 53), (106, 122), (50, 71), (69, 124)])
       \<noteq> (\<Sum>r\<leftarrow>results (comm_model example_random RF_Telemetry False (100, 20)
                          [(74, 53), (106, 122), (50, 71), (69, 124)]). fst (snd r))"
proof -
  let ?m = "comm_model example_random RF_Telemetry False (100, 20)
              [(74, 53), (106, 122), (50, 71), (69, 124)]"
  let ?d1 = "distance (74, 53) (100, 20)" and ?d2 = "distance (106, 122) (100, 20)"
  let ?d3 = "distance (50, 71) (100, 20)" and ?d4 = "distance (69, 124) (100, 20)"
  note d = smallest_area_distances
  have z: "float_round up (x / 300000000) 6 = 0" if "0 < x" "x < 150" for up x
    using rf_short_link_stored_delay[of x up] that by simp
  have st: "(\<Sum>r\<leftarrow>results ?m. fst (snd r)) = 0"
    using d by (simp add: comm_model_eq link_delay_rf z)
  have tot: "total_delay ?m = (?d1 + ?d2 + ?d3 + ?d4) / 300000000"
    by (simp add: comm_model_eq link_delay_rf add_divide_distrib)
  have lo: "323 < ?d1 + ?d2 + ?d3 + ?d4" and hi: "?d1 + ?d2 + ?d3 + ?d4 < 327"
    using d by linarith+
  have pos: "0 < total_delay ?m" unfolding tot using lo by simp
  have y: "total_delay ?m * 10 ^ 6 = (?d1 + ?d2 + ?d3 + ?d4) / 300" unfolding tot by simp
  have "1 \<le> (?d1 + ?d2 + ?d3 + ?d4) / 300" "(?d1 + ?d2 + ?d3 + ?d4) / 300 < 2"
    using lo hi by simp_all
  then have f: "\<lfloor>(?d1 + ?d2 + ?d3 + ?d4) / 300\<rfloor> = 1" by (simp add: floor_eq_iff)
  have "(?d1 + ?d2 + ?d3 + ?d4) / 300 - 1 < 1 / 2" using hi by simp
  then have shown: "float_round (round_up_at_tie example_random) (total_delay ?m) 6 = 1 / 1000000"
    unfolding float_round_def Let_def y f by simp
  from st pos shown show ?thesis by simp
qed

subsection \<open>The number of clusters\<close>





subsection \<open>Failure\<close>



end
